theory Spec2Isabelle
  imports Main
begin

section \<open>Strings as the source uses them\<close>

text \<open>
  A source string is modelled as a \<open>string\<close> (a list of characters); one \<open>char\<close> stands for
  one code unit of the source string, restricted to the 8-bit range. The helpers below are the
  ECMAScript string methods the modelled code calls, for the argument ranges in which it
  calls them.
\<close>

definition code :: "char \<Rightarrow> nat" where
  "code c = of_char c"

text \<open>White space of \<open>String.prototype.trim\<close>, \<open>trimEnd\<close> and of the regular
  expression class \<open>\\s\<close>, within the 8-bit range: TAB, LF, VT, FF, CR, SP and NBSP.\<close>

definition isSpace :: "char \<Rightarrow> bool" where
  "isSpace c = (code c = 9 \<or> code c = 10 \<or> code c = 11 \<or> code c = 12 \<or> code c = 13
                \<or> code c = 32 \<or> code c = 160)"

definition trimStart :: "string \<Rightarrow> string" where
  "trimStart s = dropWhile isSpace s"

definition trimEnd :: "string \<Rightarrow> string" where
  "trimEnd s = rev (dropWhile isSpace (rev s))"

definition trim :: "string \<Rightarrow> string" where
  "trim s = trimEnd (trimStart s)"

definition startsWith :: "string \<Rightarrow> string \<Rightarrow> bool" where
  "startsWith s p = (take (length p) s = p)"

definition endsWith :: "string \<Rightarrow> string \<Rightarrow> bool" where
  "endsWith s p = (length p \<le> length s \<and> drop (length s - length p) s = p)"

text \<open>\<open>s.indexOf(p)\<close>: the least index at which \<open>p\<close> occurs in \<open>s\<close>; \<open>None\<close> is the
  source's \<open>-1\<close>. The empty pattern is found at index 0.\<close>

fun indexOfFrom :: "nat \<Rightarrow> string \<Rightarrow> string \<Rightarrow> nat option" where
  "indexOfFrom i [] p = (if p = [] then Some i else None)"
| "indexOfFrom i (c # cs) p =
     (if startsWith (c # cs) p then Some i else indexOfFrom (Suc i) cs p)"

definition indexOf :: "string \<Rightarrow> string \<Rightarrow> nat option" where
  "indexOf s p = indexOfFrom 0 s p"

text \<open>\<open>s.lastIndexOf(p)\<close>: the greatest index at which \<open>p\<close> occurs in \<open>s\<close>; the empty
  pattern is found at \<open>length s\<close>.\<close>

fun lastIndexOfFrom :: "nat \<Rightarrow> string \<Rightarrow> string \<Rightarrow> nat option" where
  "lastIndexOfFrom i [] p = (if p = [] then Some i else None)"
| "lastIndexOfFrom i (c # cs) p =
     (case lastIndexOfFrom (Suc i) cs p of
        Some j \<Rightarrow> Some j
      | None \<Rightarrow> (if startsWith (c # cs) p then Some i else None))"

definition lastIndexOf :: "string \<Rightarrow> string \<Rightarrow> nat option" where
  "lastIndexOf s p = lastIndexOfFrom 0 s p"

text \<open>\<open>s.padEnd(n, c)\<close> for a one-character filler.\<close>

definition padEnd :: "nat \<Rightarrow> char \<Rightarrow> string \<Rightarrow> string" where
  "padEnd n c s = s @ replicate (n - length s) c"

text \<open>ASCII case folding, as the \<open>i\<close> flag of a regular expression compares the
  ASCII letters of a pattern.\<close>

definition lowerAscii :: "char \<Rightarrow> char" where
  "lowerAscii c = (if 65 \<le> code c \<and> code c \<le> 90 then char_of (code c + 32) else c)"

definition startsWithCI :: "string \<Rightarrow> string \<Rightarrow> bool" where
  "startsWithCI s p = (map lowerAscii (take (length p) s) = map lowerAscii p)"

text \<open>\<open>title.replace(/<\\/?think>/gi, "")\<close>: every occurrence of \<open><think>\<close> or
  \<open></think>\<close>, in any letter case, is removed in one left-to-right pass.\<close>

function removeThinkTags :: "string \<Rightarrow> string" where
  "removeThinkTags [] = []"
| "removeThinkTags (c # cs) =
     (if startsWithCI (c # cs) ''<think>'' then removeThinkTags (drop 7 (c # cs))
      else if startsWithCI (c # cs) ''</think>'' then removeThinkTags (drop 8 (c # cs))
      else c # removeThinkTags cs)"
  by pat_completeness auto
termination
  by (relation "measure length") auto

section \<open>The event vocabulary (MessageUpdate.ts)\<close>

datatype json =
    JNull
  | JBool bool
  | JNum int
  | JStr string
  | JArr "json list"
  | JObj "(string \<times> json) list"

datatype MessageUpdateStatus = Started | Error | Finished | KeepAlive

text \<open>A tool result as the generator builds it: status, the call's name, parameters and
  tool id, the output contents, and the display flag.\<close>

record ToolResult =
  tr_status :: string
  tr_name :: string
  tr_parameters :: "(string \<times> json) list"
  tr_toolId :: "string option"
  tr_outputs :: "string list"
  tr_display :: bool

datatype MessageUpdate =
    Status MessageUpdateStatus "string option"
  | Title string
  | Stream string
  | ReasoningStream string
  | ReasoningStatus string
  | ToolCall string string "(string \<times> json) list"
  | ToolResultUpdate string ToolResult
  | ToolError string string
  | ToolETA string nat
  | File string string string
  | FinalAnswer string bool
  | RouterMetadata string string

section \<open>The stream encoder of a turn (conversation route, \<open>update\<close>)\<close>

datatype MessageFile = MessageFile string string string string

text \<open>What is written to the response stream: a serialized event followed by a newline
  (\<open>JSON.stringify(event) + "\\n"\<close>), or a raw block of characters.\<close>

datatype chunk = Line MessageUpdate | Raw string

datatype db_write = SetTitle string | SetMessages string string

text \<open>The state one turn mutates: the fields of the target message, the conversation title,
  the local \<open>lastTokenTimestamp\<close>, the writes sent to the store and the chunks enqueued.\<close>

record turn_state =
  content :: string
  reasoning :: "string option"
  interrupted :: "bool option"
  files :: "MessageFile list"
  routerMetadata :: "(string \<times> string) option"
  updates :: "MessageUpdate list"
  title :: string
  lastTokenTimestamp :: "int option"
  dbWrites :: "db_write list"
  wire :: "chunk list"

definition isPersisted :: "MessageUpdate \<Rightarrow> bool" where
  "isPersisted e = (case e of
       Stream _ \<Rightarrow> False
     | Status KeepAlive _ \<Rightarrow> False
     | ReasoningStream _ \<Rightarrow> False
     | _ \<Rightarrow> True)"

text \<open>The first part of \<open>update\<close>: the effect of the event on the message and the
  conversation.\<close>

definition applyEvent :: "bool \<Rightarrow> string \<Rightarrow> int \<Rightarrow> turn_state \<Rightarrow> MessageUpdate \<Rightarrow> turn_state" where
  "applyEvent isRouter initialMessageContent now s e = (case e of
       Stream token \<Rightarrow> s\<lparr>content := content s @ token, lastTokenTimestamp := Some now\<rparr>
     | ReasoningStream token \<Rightarrow>
         s\<lparr>reasoning := Some ((case reasoning s of None \<Rightarrow> [] | Some r \<Rightarrow> r) @ token)\<rparr>
     | Title t \<Rightarrow>
         (let sanitizedTitle = trim (removeThinkTags t)
          in s\<lparr>title := sanitizedTitle, dbWrites := dbWrites s @ [SetTitle sanitizedTitle]\<rparr>)
     | FinalAnswer text intr \<Rightarrow>
         s\<lparr>interrupted := Some intr, content := initialMessageContent @ text\<rparr>
     | File name sha mime \<Rightarrow> s\<lparr>files := files s @ [MessageFile ''hash'' name sha mime]\<rparr>
     | RouterMetadata route model \<Rightarrow>
         (if isRouter then s\<lparr>routerMetadata := Some (route, model)\<rparr> else s)
     | _ \<Rightarrow> s)"

text \<open>The second part: what is kept in the message's persisted updates and what is
  enqueued.\<close>

definition encode :: "MessageUpdate \<Rightarrow> chunk list" where
  "encode e = (case e of
       Stream token \<Rightarrow> [Line (Stream (padEnd 16 (CHR 0x00) token))]
     | FinalAnswer text intr \<Rightarrow> [Line (FinalAnswer text intr), Raw (replicate 4096 CHR '' '')]
     | _ \<Rightarrow> [Line e])"

definition update :: "bool \<Rightarrow> string \<Rightarrow> int \<Rightarrow> turn_state \<Rightarrow> MessageUpdate \<Rightarrow> turn_state" where
  "update isRouter initialMessageContent now s e =
     (if e = Stream [] then s
      else
        (let s1 = applyEvent isRouter initialMessageContent now s e;
             s2 = (if isPersisted e then s1\<lparr>updates := updates s1 @ [e]\<rparr> else s1)
         in s2\<lparr>wire := wire s2 @ encode e\<rparr>))"

section \<open>The generator (textGeneration/generate.ts)\<close>

subsection \<open>Inputs\<close>

datatype ReasoningCfg = Regex string | Summarize | Tokens string string

text \<open>The fields of the model configuration the generator reads: \<open>model.reasoning\<close>
  (absent, or one of the three strategies; \<open>Tokens beginToken endToken\<close>) and
  \<open>model.parameters.stop\<close>.\<close>

record Model =
  reasoningCfg :: "ReasoningCfg option"
  stop :: "string list option"

record Token =
  tok_text :: string
  tok_special :: bool

record ToolCallDelta =
  tcd_index :: nat
  tcd_id :: "string option"
  tcd_name :: "string option"
  tcd_argumentsChunk :: "string option"

record ToolResultDelta =
  trd_id :: "string option"
  trd_name :: "string option"
  trd_contentChunk :: "string option"

text \<open>One element of the provider stream. An absent \<open>toolCallDeltas\<close> is the empty
  list.\<close>

record Output =
  token :: Token
  generated_text :: "string option"
  reasoningDelta :: "string option"
  toolCallDeltas :: "ToolCallDelta list"
  toolResultDelta :: "ToolResultDelta option"

text \<open>What the generator observes of its surroundings while it handles one output: the
  clock (milliseconds), the abort registry's timestamp for the conversation at the abort
  check, and the text of a reasoning summary whose request completed since the previous
  output.\<close>

record Obs =
  now :: int
  abortTime :: "int option"
  resolvedSummary :: "string option"

text \<open>One pull on the provider stream: an output, or the stream failing.\<close>

datatype Step = Yielded Output Obs | ProviderError string

text \<open>What stays fixed during a call: \<open>promptedAt\<close>, the clock at entry, the
  \<open>REASONING_SUMMARY\<close> switch, the content of the last message of the context (absent
  when the context is empty), and the collaborators the generator calls:
  \<open>regexExec1 pattern subject\<close> is \<open>new RegExp(pattern).exec(subject)?.[1]\<close> (\<open>Inl\<close>
  when the pattern does not compile), \<open>generateFromDefaultEndpoint prompt\<close> gives the
  events the auxiliary completion yields and its returned text (\<open>Inl\<close> the message of
  the error when it throws),
  \<open>jsonParse\<close> is \<open>JSON.parse\<close> (\<open>Inl\<close> the error message).\<close>

record Env =
  promptedAt :: int
  startTime :: int
  REASONING_SUMMARY :: bool
  question :: "string option"
  regexExec1 :: "string \<Rightarrow> string \<Rightarrow> string + string option"
  generateFromDefaultEndpoint :: "string \<Rightarrow> MessageUpdate list \<times> (string + string)"
  jsonParse :: "string \<Rightarrow> string + json"

subsection \<open>Local state of the generator\<close>

record ToolBuf =
  tb_name :: "string option"
  tb_args :: string
  parsedPublished :: bool
  callPublished :: bool

record GenState =
  reasoning_on :: bool
  reasoningBuffer :: string
  lastReasoningUpdate :: int
  status :: string
  summaryRequests :: nat
  toolArgBuffers :: "string \<rightharpoonup> ToolBuf"

datatype Control = Continue | Break | Throw string

datatype Outcome = Returned | Threw string

subsection \<open>Numbers in status texts\<close>

definition digitChar :: "nat \<Rightarrow> char" where
  "digitChar n = char_of (48 + n)"

function showNat :: "nat \<Rightarrow> string" where
  "showNat n = (if n < 10 then [digitChar n] else showNat (n div 10) @ [digitChar (n mod 10)])"
  by pat_completeness auto
termination
  by (relation "measure id") auto

declare showNat.simps [simp del]

definition showInt :: "int \<Rightarrow> string" where
  "showInt i = (if i < 0 then CHR ''-'' # showNat (nat (- i)) else showNat (nat i))"

text \<open>\<open>`Done in ${Math.round((new Date().getTime() - startTime.getTime()) / 1000)}s.`\<close>\<close>

definition doneStatus :: "Env \<Rightarrow> Obs \<Rightarrow> MessageUpdate" where
  "doneStatus env ob =
     ReasoningStatus (''Done in '' @ showInt ((now ob - startTime env + 500) div 1000) @ ''s.'')"

subsection \<open>Side channels: reasoning deltas, tool-call deltas, tool-result deltas\<close>

definition handleReasoningDelta :: "Output \<Rightarrow> GenState \<Rightarrow> MessageUpdate list \<times> GenState" where
  "handleReasoningDelta out st = (case reasoningDelta out of
       None \<Rightarrow> ([], st)
     | Some d \<Rightarrow>
         (if d \<noteq> [] then ([ReasoningStream d], st\<lparr>reasoningBuffer := reasoningBuffer st @ d\<rparr>)
          else ([], st)))"

definition deltaUuid :: "ToolCallDelta \<Rightarrow> string" where
  "deltaUuid d = (case tcd_id d of
       Some i \<Rightarrow> i
     | None \<Rightarrow> showNat (tcd_index d) @ ''-'' @ (case tcd_name d of Some n \<Rightarrow> n | None \<Rightarrow> ''tool''))"

definition emptyBuf :: ToolBuf where
  "emptyBuf = \<lparr>tb_name = None, tb_args = [], parsedPublished = False, callPublished = False\<rparr>"

text \<open>The body of the loop over the deltas of one output, in its three parts: the delta is
  merged into the buffer of its uuid; the call is published once its name is known; the
  arguments are published once they parse to an object.\<close>

definition mergeDelta :: "ToolBuf \<Rightarrow> ToolCallDelta \<Rightarrow> ToolBuf" where
  "mergeDelta buf d =
     (let buf1 = (case tcd_name d of
                    Some n \<Rightarrow> (if n \<noteq> [] then buf\<lparr>tb_name := Some n\<rparr> else buf)
                  | None \<Rightarrow> buf)
      in case tcd_argumentsChunk d of
           Some a \<Rightarrow> buf1\<lparr>tb_args := tb_args buf1 @ a\<rparr>
         | None \<Rightarrow> buf1)"

definition publishCall :: "string \<Rightarrow> ToolBuf \<Rightarrow> MessageUpdate list \<times> ToolBuf" where
  "publishCall uuid buf = (case tb_name buf of
       Some n \<Rightarrow>
         (if \<not> callPublished buf then ([ToolCall uuid n []], buf\<lparr>callPublished := True\<rparr>)
          else ([], buf))
     | None \<Rightarrow> ([], buf))"

definition publishParsed :: "Env \<Rightarrow> string \<Rightarrow> ToolBuf \<Rightarrow> MessageUpdate list \<times> ToolBuf" where
  "publishParsed env uuid buf =
     (if \<not> parsedPublished buf
      then (case jsonParse env (tb_args buf) of
              Inr (JObj kvs) \<Rightarrow>
                ([ToolCall uuid (case tb_name buf of Some n \<Rightarrow> n | None \<Rightarrow> ''tool'') kvs],
                 buf\<lparr>parsedPublished := True\<rparr>)
            | _ \<Rightarrow> ([], buf))
      else ([], buf))"

definition handleToolCallDelta ::
  "Env \<Rightarrow> MessageUpdate list \<times> GenState \<Rightarrow> ToolCallDelta \<Rightarrow> MessageUpdate list \<times> GenState" where
  "handleToolCallDelta env acc d =
     (let st = snd acc;
          uuid = deltaUuid d;
          buf = mergeDelta (case toolArgBuffers st uuid of Some b \<Rightarrow> b | None \<Rightarrow> emptyBuf) d
      in case publishCall uuid buf of (ev1, buf1) \<Rightarrow>
           (case publishParsed env uuid buf1 of (ev2, buf2) \<Rightarrow>
              (fst acc @ ev1 @ ev2, st\<lparr>toolArgBuffers := (toolArgBuffers st)(uuid \<mapsto> buf2)\<rparr>)))"

definition handleToolCallDeltas :: "Env \<Rightarrow> Output \<Rightarrow> GenState \<Rightarrow> MessageUpdate list \<times> GenState" where
  "handleToolCallDeltas env out st = foldl (handleToolCallDelta env) ([], st) (toolCallDeltas out)"

text \<open>\<open>/(^|\\b)(error|failed|exception|traceback)\\b/i.test(chunk)\<close>: one of the four
  words, in any letter case, starting at the start of the chunk or after a non-word
  character and ending at the end of the chunk or before a non-word character.\<close>

definition isWordChar :: "char \<Rightarrow> bool" where
  "isWordChar c = ((48 \<le> code c \<and> code c \<le> 57) \<or> (65 \<le> code c \<and> code c \<le> 90)
                   \<or> (97 \<le> code c \<and> code c \<le> 122) \<or> code c = 95)"

definition errorWordAt :: "string \<Rightarrow> bool" where
  "errorWordAt s = list_ex
     (\<lambda>w. startsWithCI s w \<and> (case drop (length w) s of [] \<Rightarrow> True | c # _ \<Rightarrow> \<not> isWordChar c))
     [''error'', ''failed'', ''exception'', ''traceback'']"

fun scanError :: "bool \<Rightarrow> string \<Rightarrow> bool" where
  "scanError boundary [] = False"
| "scanError boundary (c # cs) =
     ((boundary \<and> errorWordAt (c # cs)) \<or> scanError (\<not> isWordChar c) cs)"

definition isErrorChunk :: "string \<Rightarrow> bool" where
  "isErrorChunk s = scanError True s"

definition handleToolResultDelta :: "Output \<Rightarrow> MessageUpdate list" where
  "handleToolResultDelta out = (case toolResultDelta out of
       None \<Rightarrow> []
     | Some d \<Rightarrow>
         (let nm = (case trd_name d of Some n \<Rightarrow> n | None \<Rightarrow> ''tool'');
              uuid = (case trd_id d of Some i \<Rightarrow> i | None \<Rightarrow> nm @ ''-result'');
              contentChunk = (case trd_contentChunk d of Some c \<Rightarrow> c | None \<Rightarrow> [])
          in if contentChunk \<noteq> []
             then (if isErrorChunk contentChunk then [ToolError uuid contentChunk]
                   else [ToolResultUpdate uuid
                           \<lparr>tr_status = ''success'', tr_name = nm, tr_parameters = [],
                            tr_toolId = trd_id d, tr_outputs = [contentChunk], tr_display = True\<rparr>])
             else []))"

subsection \<open>Completion: the output that carries \<open>generated_text\<close>\<close>

definition stopTokens :: "Model \<Rightarrow> string list" where
  "stopTokens m = (case stop m of None \<Rightarrow> [] | Some ss \<Rightarrow> ss)"

text \<open>One round of the loop over the stop tokens; the accumulator is
  \<open>(interrupted, text)\<close>.\<close>

definition stopStep :: "bool \<times> string \<Rightarrow> string \<Rightarrow> bool \<times> string" where
  "stopStep acc stopToken =
     (if endsWith (snd acc) stopToken
      then (False, take (length (snd acc) - length stopToken) (snd acc))
      else acc)"

definition completedText :: "Model \<Rightarrow> Output \<Rightarrow> string \<Rightarrow> bool \<times> string" where
  "completedText m out g =
     foldl stopStep
       (\<not> tok_special (token out) \<and> tok_text (token out) \<notin> set (stopTokens m), trimEnd g)
       (stopTokens m)"

text \<open>Tokens mode: the indices of the markers are looked up in the reasoning buffer and
  the slice between them is cut out of the text.\<close>

definition removeReasoningSection :: "string \<Rightarrow> string \<Rightarrow> string \<Rightarrow> string \<Rightarrow> string" where
  "removeReasoningSection beginToken endToken buffer txt =
     (let beginIndex = (if beginToken \<noteq> [] then indexOf buffer beginToken else Some 0);
          endIndex = lastIndexOf buffer endToken
      in case beginIndex of
           None \<Rightarrow> txt
         | Some b \<Rightarrow> (case endIndex of
               None \<Rightarrow> txt
             | Some e \<Rightarrow> take b txt @ drop (e + length endToken) txt))"

definition summarizePrompt :: "string \<Rightarrow> string \<Rightarrow> string" where
  "summarizePrompt q buffer =
     ''Question: '' @ q @ [CHR 0x0A, CHR 0x0A] @ ''Reasoning: '' @ buffer"

definition complete ::
  "Model \<Rightarrow> Env \<Rightarrow> Obs \<Rightarrow> GenState \<Rightarrow> Output \<Rightarrow> string \<Rightarrow> MessageUpdate list \<times> Control" where
  "complete m env ob st out g =
     (case completedText m out g of (intr, txt) \<Rightarrow>
       (case reasoningCfg m of
          None \<Rightarrow> ([FinalAnswer txt intr], Continue)
        | Some (Regex r) \<Rightarrow>
            (case regexExec1 env r (reasoningBuffer st) of
               Inl err \<Rightarrow> ([], Throw err)
             | Inr None \<Rightarrow> ([FinalAnswer txt intr], Continue)
             | Inr (Some g1) \<Rightarrow> ([FinalAnswer g1 intr], Continue))
        | Some Summarize \<Rightarrow>
            (case question env of
               None \<Rightarrow>
                 ([ReasoningStatus ''Summarizing reasoning...'', FinalAnswer txt intr], Continue)
             | Some q \<Rightarrow>
                 (case generateFromDefaultEndpoint env (summarizePrompt q (reasoningBuffer st)) of
                    (evs, Inl err) \<Rightarrow>
                      (ReasoningStatus ''Summarizing reasoning...'' # evs @ [FinalAnswer txt intr],
                       Continue)
                  | (evs, Inr summary) \<Rightarrow>
                      (ReasoningStatus ''Summarizing reasoning...'' # evs
                         @ [doneStatus env ob, FinalAnswer summary intr],
                       Continue)))
        | Some (Tokens b e) \<Rightarrow>
            ([FinalAnswer (removeReasoningSection b e (reasoningBuffer st) txt) intr], Continue)))"

subsection \<open>Passing a token down\<close>

definition markers :: "Model \<Rightarrow> (string \<times> string) option" where
  "markers m = (case reasoningCfg m of Some (Tokens b e) \<Rightarrow> Some (b, e) | _ \<Rightarrow> None)"

definition abortCheck :: "Env \<Rightarrow> Obs \<Rightarrow> Control" where
  "abortCheck env ob = (case abortTime ob of
       None \<Rightarrow> Continue
     | Some d \<Rightarrow> (if d > promptedAt env then Break else Continue))"

text \<open>A summary is requested when the switch is on and more than 4000 ms passed since
  the last request; its text arrives later (\<open>settle\<close>).\<close>

definition requestSummary :: "Env \<Rightarrow> Obs \<Rightarrow> GenState \<Rightarrow> GenState" where
  "requestSummary env ob st =
     (if REASONING_SUMMARY env \<and> now ob - lastReasoningUpdate st > 4000
      then st\<lparr>lastReasoningUpdate := now ob, summaryRequests := Suc (summaryRequests st)\<rparr>
      else st)"

definition settle :: "Obs \<Rightarrow> GenState \<Rightarrow> GenState" where
  "settle ob st = (case resolvedSummary ob of
       None \<Rightarrow> st
     | Some s \<Rightarrow>
         (if summaryRequests st > 0
          then st\<lparr>status := s, summaryRequests := summaryRequests st - 1\<rparr>
          else st))"

definition passReasoning ::
  "Model \<Rightarrow> Env \<Rightarrow> Obs \<Rightarrow> GenState \<Rightarrow> string \<Rightarrow> MessageUpdate list \<times> GenState \<times> Control" where
  "passReasoning m env ob st t =
     (let buf = reasoningBuffer st @ t;
          cut = (case markers m of
                   None \<Rightarrow> None
                 | Some (b, e) \<Rightarrow> (case lastIndexOf buf e of
                       None \<Rightarrow> None
                     | Some i \<Rightarrow> Some (i + length e)))
      in case cut of
           Some k \<Rightarrow>
             ([ReasoningStream t, Stream (drop k buf), doneStatus env ob],
              st\<lparr>reasoningBuffer := take (k + 1) buf, reasoning_on := False\<rparr>,
              Continue)
         | None \<Rightarrow>
             ((if status st \<noteq> [] then [ReasoningStatus (status st)] else []) @ [ReasoningStream t],
              requestSummary env ob (st\<lparr>reasoningBuffer := buf, status := []\<rparr>),
              abortCheck env ob))"

definition passToken ::
  "Model \<Rightarrow> Env \<Rightarrow> Obs \<Rightarrow> GenState \<Rightarrow> Output \<Rightarrow> MessageUpdate list \<times> GenState \<times> Control" where
  "passToken m env ob st out =
     (let t = tok_text (token out);
          isBegin = (case markers m of None \<Rightarrow> False | Some (b, e) \<Rightarrow> t = b);
          isEnd = (case markers m of None \<Rightarrow> False | Some (b, e) \<Rightarrow> t = e)
      in if isBegin
         then ([], st\<lparr>reasoning_on := True, reasoningBuffer := reasoningBuffer st @ t\<rparr>, Continue)
         else if isEnd
         then ([doneStatus env ob],
               st\<lparr>reasoning_on := False, reasoningBuffer := reasoningBuffer st @ t\<rparr>, Continue)
         else if tok_special (token out) then ([], st, Continue)
         else if reasoning_on st then passReasoning m env ob st t
         else ([Stream t], st, abortCheck env ob))"

subsection \<open>The loop over the provider stream\<close>

definition completionText :: "Output \<Rightarrow> string option" where
  "completionText out = (case generated_text out of
       None \<Rightarrow> None
     | Some g \<Rightarrow> (if g \<noteq> [] then Some g else None))"

text \<open>The body of the loop for one output: the side channels, then either the completion
  branch (which ends with \<open>continue\<close>) or the token branch with its abort check.\<close>

definition step ::
  "Model \<Rightarrow> Env \<Rightarrow> GenState \<Rightarrow> Output \<Rightarrow> Obs \<Rightarrow> MessageUpdate list \<times> GenState \<times> Control" where
  "step m env st0 out ob =
     (case handleReasoningDelta out (settle ob st0) of (ev1, st1) \<Rightarrow>
       (case handleToolCallDeltas env out st1 of (ev2, st) \<Rightarrow>
         (case handleToolResultDelta out of ev3 \<Rightarrow>
           (case completionText out of
              Some g \<Rightarrow>
                (case complete m env ob st out g of (ev4, c) \<Rightarrow> (ev1 @ ev2 @ ev3 @ ev4, st, c))
            | None \<Rightarrow>
                (case passToken m env ob st out of (ev4, st', c) \<Rightarrow>
                   (ev1 @ ev2 @ ev3 @ ev4, st', c))))))"

fun run :: "Model \<Rightarrow> Env \<Rightarrow> GenState \<Rightarrow> Step list \<Rightarrow> MessageUpdate list \<times> Outcome" where
  "run m env st [] = ([], Returned)"
| "run m env st (ProviderError msg # rest) = ([], Threw msg)"
| "run m env st (Yielded out ob # rest) =
     (case step m env st out ob of
        (evs, st', Continue) \<Rightarrow> (case run m env st' rest of (evs', oc) \<Rightarrow> (evs @ evs', oc))
      | (evs, st', Break) \<Rightarrow> (evs, Returned)
      | (evs, st', Throw msg) \<Rightarrow> (evs, Threw msg))"

text \<open>Regex and summarize models, and tokens models with an empty begin marker, start in
  reasoning mode.\<close>

definition startsInReasoning :: "Model \<Rightarrow> bool" where
  "startsInReasoning m = (case reasoningCfg m of
       None \<Rightarrow> False
     | Some (Regex r) \<Rightarrow> True
     | Some Summarize \<Rightarrow> True
     | Some (Tokens b e) \<Rightarrow> b = [])"

definition initState :: "Model \<Rightarrow> Env \<Rightarrow> GenState" where
  "initState m env =
     \<lparr>reasoning_on = startsInReasoning m, reasoningBuffer = [],
      lastReasoningUpdate = startTime env, status = [], summaryRequests = 0,
      toolArgBuffers = Map.empty\<rparr>"

definition generate :: "Model \<Rightarrow> Env \<Rightarrow> Step list \<Rightarrow> MessageUpdate list \<times> Outcome" where
  "generate m env steps =
     (case run m env (initState m env) steps of (evs, oc) \<Rightarrow>
        ((if startsInReasoning m then [ReasoningStatus ''Started reasoning...''] else []) @ evs, oc))"

section \<open>One turn of the conversation route (\<open>start\<close>)\<close>

text \<open>The events of the producer arrive with the clock reading at which \<open>update\<close> handles
  them.\<close>

definition runUpdates ::
  "bool \<Rightarrow> string \<Rightarrow> turn_state \<Rightarrow> (int \<times> MessageUpdate) list \<Rightarrow> turn_state" where
  "runUpdates isRouter initialMessageContent s tevs =
     foldl (\<lambda>acc te. update isRouter initialMessageContent (fst te) acc (snd te)) s tevs"

definition noOutputError :: MessageUpdate where
  "noOutputError = Status Error (Some ''No output was generated. Something went wrong.'')"

text \<open>The \<open>try\<close> block with its \<open>catch\<close>: the events are handled in order; when the
  producer throws, \<open>hasError\<close> is set and the error is sent as a Status event. (The
  store and the response stream are taken to accept every write.)\<close>

definition tryCatch ::
  "bool \<Rightarrow> string \<Rightarrow> turn_state \<Rightarrow> (int \<times> MessageUpdate) list \<Rightarrow> Outcome \<Rightarrow> int
     \<Rightarrow> bool \<times> turn_state" where
  "tryCatch isRouter initialMessageContent s tevs oc tEnd =
     (case oc of
        Returned \<Rightarrow> (False, runUpdates isRouter initialMessageContent s tevs)
      | Threw msg \<Rightarrow>
          (True, update isRouter initialMessageContent tEnd
                   (runUpdates isRouter initialMessageContent s tevs) (Status Error (Some msg))))"

text \<open>The whole of \<open>start\<close>: the title is written to the store, the content at turn
  start is remembered, the events are handled, the \<open>finally\<close> block sends the no-output
  error when nothing was reported and the content is the initial one, and the messages are
  written to the store.\<close>

definition start ::
  "bool \<Rightarrow> turn_state \<Rightarrow> (int \<times> MessageUpdate) list \<Rightarrow> Outcome \<Rightarrow> int \<Rightarrow> turn_state" where
  "start isRouter s0 tevs oc tEnd =
     (let sA = s0\<lparr>dbWrites := dbWrites s0 @ [SetTitle (title s0)]\<rparr>;
          initialMessageContent = content sA
      in case tryCatch isRouter initialMessageContent sA tevs oc tEnd of
           (hasError, s2) \<Rightarrow>
             (let s3 = (if \<not> hasError \<and> content s2 = initialMessageContent
                        then update isRouter initialMessageContent tEnd s2 noOutputError
                        else s2)
              in s3\<lparr>dbWrites := dbWrites s3 @ [SetMessages (content s3) (title s3)]\<rparr>))"

section \<open>Deleting a message (conversation route, \<open>delete /message/:messageId\<close>)\<close>

record Message =
  msg_id :: string
  msg_from :: string
  msg_content :: string
  ancestors :: "string list option"
  children :: "string list option"

datatype delete_error = MessageNotFound | DeletingMessageFailed

text \<open>The filter: not the message itself, the ancestors are present, and the message is
  not among them.\<close>

definition keepMessage :: "string \<Rightarrow> Message \<Rightarrow> bool" where
  "keepMessage messageId m =
     (msg_id m \<noteq> messageId \<and>
      (case ancestors m of None \<Rightarrow> False | Some a \<Rightarrow> messageId \<notin> set a))"

definition removeChild :: "string \<Rightarrow> Message \<Rightarrow> Message" where
  "removeChild messageId m = (case children m of
       None \<Rightarrow> m
     | Some c \<Rightarrow>
         (if messageId \<in> set c
          then m\<lparr>children := Some (filter (\<lambda>child. child \<noteq> messageId) c)\<rparr>
          else m))"

text \<open>\<open>modifiedCount\<close> is what the store reports for the write of the filtered list.\<close>

definition deleteMessage :: "Message list \<Rightarrow> string \<Rightarrow> nat \<Rightarrow> delete_error + Message list" where
  "deleteMessage messages messageId modifiedCount =
     (if messageId \<notin> set (map msg_id messages) then Inl MessageNotFound
      else if modifiedCount = 0 then Inl DeletingMessageFailed
      else Inr (map (removeChild messageId) (filter (keepMessage messageId) messages)))"

section \<open>The merged stream of a turn (textGeneration)\<close>

text \<open>The heartbeat: a KeepAlive status per tick until the done-signal is set; \<open>n\<close> is the
  number of ticks it gets to run.\<close>

definition keepAlive :: "nat \<Rightarrow> MessageUpdate list" where
  "keepAlive n = replicate n (Status KeepAlive None)"

text \<open>The main producer: the Started status, then the generator's events. A failure of the
  preprocessing that precedes the generator is a \<open>ProviderError\<close> at the head of the
  steps.\<close>

definition textGenerationWithoutTitle ::
  "Model \<Rightarrow> Env \<Rightarrow> Step list \<Rightarrow> MessageUpdate list \<times> Outcome" where
  "textGenerationWithoutTitle m env steps =
     (case generate m env steps of (evs, oc) \<Rightarrow> (Status Started None # evs, oc))"

datatype Producer = TitleGen | TextGen | KeepAliveGen

text \<open>
  Modelled from the spec: \<open>mergeAsyncGenerators\<close> is imported by the module and is not
  among the sources. The spec has the merge drain "whichever producer has a ready event"
  next, each producer's events in its own order. The schedule \<open>sch\<close> says which producer
  is ready at each draining; a producer with nothing left is passed over, and what is left
  when the schedule ends is drained producer by producer.
\<close>

fun drain :: "Producer list \<Rightarrow> 'a list \<Rightarrow> 'a list \<Rightarrow> 'a list \<Rightarrow> 'a list" where
  "drain [] ts xs ks = ts @ xs @ ks"
| "drain (TitleGen # sch) [] xs ks = drain sch [] xs ks"
| "drain (TitleGen # sch) (t # ts) xs ks = t # drain sch ts xs ks"
| "drain (TextGen # sch) ts [] ks = drain sch ts [] ks"
| "drain (TextGen # sch) ts (x # xs) ks = x # drain sch ts xs ks"
| "drain (KeepAliveGen # sch) ts xs [] = drain sch ts xs []"
| "drain (KeepAliveGen # sch) ts xs (k # ks) = k # drain sch ts xs ks"

text \<open>
  Modelled from the spec: the merge itself, with "no priority ordering beyond Started
  always first": the first event of the main producer is drained before anything else, the
  rest follows the schedule.
\<close>

definition mergeAsyncGenerators :: "Producer list \<Rightarrow> 'a list \<Rightarrow> 'a list \<Rightarrow> 'a list \<Rightarrow> 'a list" where
  "mergeAsyncGenerators sch ts xs ks = (case xs of
       [] \<Rightarrow> drain sch ts [] ks
     | x # xs' \<Rightarrow> x # drain sch ts xs' ks)"

text \<open>
  Modelled from the spec: \<open>generateTitleForConversation\<close> is imported by the module and is
  not among the sources. The title producer yields Title events (none when it fails or the
  conversation already has a title).
\<close>

definition generateTitleForConversation :: "string list \<Rightarrow> MessageUpdate list" where
  "generateTitleForConversation titles = map Title titles"

definition textGeneration ::
  "Producer list \<Rightarrow> string list \<Rightarrow> nat \<Rightarrow> Model \<Rightarrow> Env \<Rightarrow> Step list \<Rightarrow> MessageUpdate list" where
  "textGeneration sch titles n m env steps =
     mergeAsyncGenerators sch (generateTitleForConversation titles)
       (fst (textGenerationWithoutTitle m env steps)) (keepAlive n)"

definition isStatus :: "MessageUpdate \<Rightarrow> bool" where
  "isStatus e = (case e of Status k msg \<Rightarrow> True | _ \<Rightarrow> False)"

definition isStarted :: "MessageUpdate \<Rightarrow> bool" where
  "isStarted e = (case e of Status Started msg \<Rightarrow> True | _ \<Rightarrow> False)"

definition isFinalAnswer :: "MessageUpdate \<Rightarrow> bool" where
  "isFinalAnswer e = (case e of FinalAnswer t i \<Rightarrow> True | _ \<Rightarrow> False)"

section \<open>The model-issued tool call (generate with MCP servers)\<close>

text \<open>The first tool call of the non-streaming completion: its type, the function's name
  and its raw arguments.\<close>

record ToolCallMsg =
  call_type :: string
  fn_name :: "string option"
  fn_arguments :: "string option"

text \<open>\<open>generateFromDefaultEndpoint\<close> is imported by the module and is not among the
  sources; the tool path delegates to it with \<open>yield*\<close>. What a call of it does is taken
  as given: the events it yields (they are passed on to the consumer as they are), the
  tool invocations made while it runs (a chat-completions endpoint has a tool hook of its
  own, switched on by the same \<open>MCP_SERVERS\<close>: it asks the model with the tools of the
  servers and invokes the tool the model names), and its result, the synthesis, or
  \<open>Inl\<close> the message of the error it throws.\<close>

record FollowUp =
  fu_events :: "MessageUpdate list"
  fu_calls :: "(string option \<times> string \<times> json) list"
  fu_result :: "string + string"

text \<open>What the tool path meets: the names of the configured servers, the tool schema
  (the number of tools and the mapping from function names to server and tool; \<open>None\<close>
  when listing the tools throws), the completion (\<open>None\<close> when the request throws,
  otherwise the first tool call if there is one), the tool invocation (\<open>Inl\<close> the message
  of the error it throws), the uuid drawn for the call, the content of the last message of
  the context, and the follow-up completion for a prompt.\<close>

record McpEnv =
  servers :: "string list"
  toolsAndMapping :: "(nat \<times> (string \<rightharpoonup> string \<times> string)) option"
  completion :: "ToolCallMsg option option"
  callMcpTool :: "string option \<Rightarrow> string \<Rightarrow> json \<Rightarrow> string + string"
  randomUUID :: string
  lastContent :: "string option"
  synthesize :: "string \<Rightarrow> FollowUp"
  parseJson :: "string \<Rightarrow> string + json"

text \<open>\<open>parseArgs\<close>: absent or blank arguments, and arguments that do not parse, are the
  empty object.\<close>

definition parseArgs :: "McpEnv \<Rightarrow> string option \<Rightarrow> json" where
  "parseArgs e raw = (case raw of
       None \<Rightarrow> JObj []
     | Some r \<Rightarrow>
         (if trim r = [] then JObj []
          else (case parseJson e r of Inl err \<Rightarrow> JObj [] | Inr v \<Rightarrow> v)))"

text \<open>\<open>Object.entries\<close> of the parsed arguments when they are an object (an array has its
  indices as keys), and the entries whose value is a string, a number or a boolean.\<close>

definition entries :: "json \<Rightarrow> (string \<times> json) list" where
  "entries v = (case v of
       JObj kvs \<Rightarrow> kvs
     | JArr xs \<Rightarrow> map (\<lambda>i. (showNat i, xs ! i)) [0 ..< length xs]
     | _ \<Rightarrow> [])"

definition isPrimitive :: "json \<Rightarrow> bool" where
  "isPrimitive v = (case v of JStr x \<Rightarrow> True | JNum x \<Rightarrow> True | JBool x \<Rightarrow> True | _ \<Rightarrow> False)"

definition parametersClean :: "json \<Rightarrow> (string \<times> json) list" where
  "parametersClean v = filter (\<lambda>kv. isPrimitive (snd kv)) (entries v)"

definition synthesisPrompt :: "string \<Rightarrow> string \<Rightarrow> string" where
  "synthesisPrompt q out =
     ''Question: '' @ q @ [CHR 0x0A, CHR 0x0A] @ ''Tool results:'' @ [CHR 0x0A] @ out
       @ [CHR 0x0A, CHR 0x0A]
       @ ''Using only the tool results above, answer the question concisely. If uncertain, say you don't know.''"

text \<open>What the flow did: the events of the turn and the tool invocations of the turn
  (server found, tool, arguments), the generator's own followed by those of the follow-up
  completion, or nothing, in which case the generator goes on to the provider stream.\<close>

datatype McpResult = Handled "MessageUpdate list" "(string option \<times> string \<times> json) list" | FallThrough

definition toolPath :: "McpEnv \<Rightarrow> (string \<rightharpoonup> string \<times> string) \<Rightarrow> string \<Rightarrow> string option \<Rightarrow> McpResult" where
  "toolPath e mapping fnName rawArgs =
     (let uuid = randomUUID e;
          argsObj = parseArgs e rawArgs;
          params = parametersClean argsObj;
          announce = [ToolCall uuid fnName params, ToolETA uuid 10]
      in case mapping fnName of
           None \<Rightarrow>
             Handled (announce @ [ToolError uuid (''Unknown MCP function: '' @ fnName),
                                  FinalAnswer (''Unknown MCP function: '' @ fnName) False]) []
         | Some (srv, tool) \<Rightarrow>
             (let server = (if srv \<in> set (servers e) then Some srv else None);
                  invoked = [(server, tool, argsObj)]
              in case callMcpTool e server tool argsObj of
                   Inl msg \<Rightarrow>
                     Handled (announce @ [ToolError uuid msg, FinalAnswer (''MCP error: '' @ msg) False])
                       invoked
                 | Inr out \<Rightarrow>
                     (let result = ToolResultUpdate uuid
                            \<lparr>tr_status = ''success'', tr_name = fnName, tr_parameters = params,
                             tr_toolId = None, tr_outputs = [out], tr_display = True\<rparr>;
                          q = (case lastContent e of None \<Rightarrow> [] | Some c \<Rightarrow> c);
                          fu = synthesize e (synthesisPrompt q out)
                      in case fu_result fu of
                           Inr synthesis \<Rightarrow>
                             Handled (announce @ [result] @ fu_events fu @ [FinalAnswer synthesis False])
                               (invoked @ fu_calls fu)
                         | Inl msg \<Rightarrow>
                             Handled (announce @ [result] @ fu_events fu
                                        @ [ToolError uuid msg, FinalAnswer (''MCP error: '' @ msg) False])
                               (invoked @ fu_calls fu))))"

definition mcpToolFlow :: "McpEnv \<Rightarrow> McpResult" where
  "mcpToolFlow e =
     (if servers e = [] then FallThrough
      else case toolsAndMapping e of
             None \<Rightarrow> FallThrough
           | Some (ntools, mapping) \<Rightarrow>
               (if ntools = 0 then FallThrough
                else case completion e of
                       None \<Rightarrow> FallThrough
                     | Some None \<Rightarrow> FallThrough
                     | Some (Some call) \<Rightarrow>
                         (case fn_name call of
                            None \<Rightarrow> FallThrough
                          | Some fnName \<Rightarrow>
                              (if call_type call = ''function'' \<and> fnName \<noteq> []
                               then toolPath e mapping fnName (fn_arguments call)
                               else FallThrough))))"

text \<open>The generator of the module with the tool path: when the flow handles the turn the
  generator returns after its events; otherwise it runs the loop over the provider stream,
  which in this module does not read the side channels of an output.\<close>

definition withoutSideChannels :: "Step \<Rightarrow> Step" where
  "withoutSideChannels s = (case s of
       Yielded out ob \<Rightarrow>
         Yielded (out\<lparr>reasoningDelta := None, toolCallDeltas := [], toolResultDelta := None\<rparr>) ob
     | ProviderError msg \<Rightarrow> ProviderError msg)"

definition generateWithMcp ::
  "McpEnv \<Rightarrow> Model \<Rightarrow> Env \<Rightarrow> Step list \<Rightarrow> MessageUpdate list \<times> Outcome" where
  "generateWithMcp e m env steps = (case mcpToolFlow e of
       Handled evs calls \<Rightarrow> (evs, Returned)
     | FallThrough \<Rightarrow> generate m env (map withoutSideChannels steps))"

section \<open>The inline tool command (endpointOai)\<close>

record EndpointMessage =
  em_from :: string
  em_content :: string

text \<open>\<open>openAIChatToTextGenerationSingle\<close>: the content of a completion as a single output
  whose token and \<open>generated_text\<close> are both the content.\<close>

definition openAIChatToTextGenerationSingle :: "string \<Rightarrow> Output list" where
  "openAIChatToTextGenerationSingle c =
     [\<lparr>token = \<lparr>tok_text = c, tok_special = False\<rparr>, generated_text = Some c,
       reasoningDelta = None, toolCallDeltas = [], toolResultDelta = None\<rparr>]"

text \<open>The command pattern
  \<open>/^\\/mcp\\s+([a-z0-9_-]+)\\.([a-zA-Z0-9._-]+)(?:\\s+([\\s\\S]*))?$/i\<close>:
  the word \<open>/mcp\<close> in any letter case, white space, a server name, a dot, a tool name
  and then either the end of the message or white space followed by the raw arguments.
  The result is the three groups; the third is absent when the message ends after the
  tool name.\<close>

definition isDigitOrLetter :: "char \<Rightarrow> bool" where
  "isDigitOrLetter c = ((48 \<le> code c \<and> code c \<le> 57) \<or> (65 \<le> code c \<and> code c \<le> 90)
                        \<or> (97 \<le> code c \<and> code c \<le> 122))"

definition isServerChar :: "char \<Rightarrow> bool" where
  "isServerChar c = (isDigitOrLetter c \<or> c = CHR ''_'' \<or> c = CHR ''-'')"

definition isToolChar :: "char \<Rightarrow> bool" where
  "isToolChar c = (isDigitOrLetter c \<or> c = CHR ''.'' \<or> c = CHR ''_'' \<or> c = CHR ''-'')"

definition matchMcpCommand :: "string \<Rightarrow> (string \<times> string \<times> string option) option" where
  "matchMcpCommand s =
     (if \<not> startsWithCI s ''/mcp'' then None
      else
        (let r1 = drop 4 s;
             r2 = dropWhile isSpace r1;
             serverName = takeWhile isServerChar r2;
             r3 = dropWhile isServerChar r2;
             toolName = takeWhile isToolChar (drop 1 r3);
             r4 = dropWhile isToolChar (drop 1 r3)
         in if takeWhile isSpace r1 = [] \<or> serverName = [] \<or> take 1 r3 \<noteq> ''.'' \<or> toolName = []
            then None
            else if r4 = [] then Some (serverName, toolName, None)
            else if takeWhile isSpace r4 = [] then None
            else Some (serverName, toolName, Some (dropWhile isSpace r4))))"

text \<open>The hook at the head of the endpoint. \<open>Some\<close> is the stream it returns without
  calling the model; \<open>None\<close> is falling through to the rest of the endpoint, which sends
  the context to the model.\<close>

definition inlineMcpHook ::
  "string list \<Rightarrow> (string \<Rightarrow> string + json) \<Rightarrow> (string \<Rightarrow> string \<Rightarrow> json \<Rightarrow> string + string)
     \<Rightarrow> EndpointMessage list \<Rightarrow> Output list option" where
  "inlineMcpHook serverNames parse callTool msgs =
     (if serverNames = [] \<or> msgs = [] then None
      else if em_from (last msgs) \<noteq> ''user'' then None
      else case matchMcpCommand (em_content (last msgs)) of
             None \<Rightarrow> None
           | Some (serverName, toolName, raw) \<Rightarrow>
               (if serverName \<notin> set serverNames
                then Some (openAIChatToTextGenerationSingle (''Unknown MCP server: '' @ serverName))
                else
                  (case (case raw of
                           None \<Rightarrow> Inr (JObj [])
                         | Some r \<Rightarrow> (if trim r = [] then Inr (JObj []) else parse r)) of
                     Inl msg \<Rightarrow> Some (openAIChatToTextGenerationSingle (''Invalid JSON args: '' @ msg))
                   | Inr args \<Rightarrow>
                       (case callTool serverName toolName args of
                          Inl msg \<Rightarrow> Some (openAIChatToTextGenerationSingle (''MCP error: '' @ msg))
                        | Inr out \<Rightarrow> Some (openAIChatToTextGenerationSingle out)))))"

text \<open>The generator fed with the outputs of an endpoint, all observed under \<open>ob\<close>.\<close>

definition generateFrom :: "Model \<Rightarrow> Env \<Rightarrow> Obs \<Rightarrow> Output list \<Rightarrow> MessageUpdate list \<times> Outcome" where
  "generateFrom m env ob outs = generate m env (map (\<lambda>out. Yielded out ob) outs)"

text \<open>The two kinds of endpoint \<open>endpointOai\<close> builds, by the \<open>completion\<close> setting of the
  model's endpoint (the schema admits these two values).\<close>

datatype CompletionType = Completions | ChatCompletions

text \<open>The endpoint as the generator sees it: the stream it returns, and whether the
  handler went on to its model-backed part, which sends the context to the model. The
  \<open>completions\<close> handler has no hook: it builds the prompt and sends it to the model
  whatever the last message is. The \<open>chat_completions\<close> handler returns the hook's
  stream when the hook answers, and otherwise goes on to the model. \<open>modelStream\<close> is the
  stream the model-backed part of the handler returns.\<close>

definition endpointOai ::
  "CompletionType \<Rightarrow> string list \<Rightarrow> (string \<Rightarrow> string + json)
     \<Rightarrow> (string \<Rightarrow> string \<Rightarrow> json \<Rightarrow> string + string)
     \<Rightarrow> EndpointMessage list \<Rightarrow> Output list \<Rightarrow> Output list \<times> bool" where
  "endpointOai completion_type serverNames parse callTool msgs modelStream =
     (case completion_type of
        Completions \<Rightarrow> (modelStream, True)
      | ChatCompletions \<Rightarrow>
          (case inlineMcpHook serverNames parse callTool msgs of
             Some outs \<Rightarrow> (outs, False)
           | None \<Rightarrow> (modelStream, True)))"

section \<open>Vocabulary of the statements and example inputs\<close>

definition streamToken :: "MessageUpdate \<Rightarrow> string" where
  "streamToken e = (case e of Stream t \<Rightarrow> t | _ \<Rightarrow> [])"




text \<open>The path condition of the loop body under which an output is passed down as a
  Stream or Reasoning.Stream token and the abort check is reached: the output carries no
  \<open>generated_text\<close>, its token is not special and is neither marker, and (in reasoning
  mode with markers) the buffer extended by the token does not contain the end marker.\<close>

definition passesDown :: "Model \<Rightarrow> Env \<Rightarrow> GenState \<Rightarrow> Output \<Rightarrow> Obs \<Rightarrow> bool" where
  "passesDown m env st0 out ob =
     (case handleToolCallDeltas env out (snd (handleReasoningDelta out (settle ob st0))) of
        (ev2, st) \<Rightarrow>
          completionText out = None \<and> \<not> tok_special (token out) \<and>
          (case markers m of
             None \<Rightarrow> True
           | Some (b, e) \<Rightarrow>
               tok_text (token out) \<noteq> b \<and> tok_text (token out) \<noteq> e \<and>
               (\<not> reasoning_on st \<or> lastIndexOf (reasoningBuffer st @ tok_text (token out)) e = None)))"

definition quiet :: Obs where
  "quiet = \<lparr>now = 1000, abortTime = None, resolvedSummary = None\<rparr>"

definition plainEnv :: Env where
  "plainEnv =
     \<lparr>promptedAt = 1000, startTime = 1000, REASONING_SUMMARY = False, question = Some ''q'',
      regexExec1 = (\<lambda>p s. Inr None),
      generateFromDefaultEndpoint = (\<lambda>p. ([], Inl ''Generation failed'')),
      jsonParse = (\<lambda>s. Inl ''Unexpected token'')\<rparr>"

text \<open>An output that carries only a token, and one that also carries
  \<open>generated_text\<close>.\<close>

definition tokenOutput :: "string \<Rightarrow> Output" where
  "tokenOutput t =
     \<lparr>token = \<lparr>tok_text = t, tok_special = False\<rparr>, generated_text = None,
      reasoningDelta = None, toolCallDeltas = [], toolResultDelta = None\<rparr>"

definition finalOutput :: "string \<Rightarrow> bool \<Rightarrow> string \<Rightarrow> Output" where
  "finalOutput t sp g =
     \<lparr>token = \<lparr>tok_text = t, tok_special = sp\<rparr>, generated_text = Some g,
      reasoningDelta = None, toolCallDeltas = [], toolResultDelta = None\<rparr>"

definition tok :: "Obs \<Rightarrow> string \<Rightarrow> Step" where
  "tok ob t = Yielded (tokenOutput t) ob"

definition plainModel :: Model where
  "plainModel = \<lparr>reasoningCfg = None, stop = None\<rparr>"

definition thinkModel :: Model where
  "thinkModel = \<lparr>reasoningCfg = Some (Tokens ''<think>'' ''</think>''), stop = None\<rparr>"

definition regexModel :: Model where
  "regexModel = \<lparr>reasoningCfg = Some (Regex ''Answer: (.*)''), stop = None\<rparr>"

definition emptyTurn :: turn_state where
  "emptyTurn =
     \<lparr>content = [], reasoning = None, interrupted = None, files = [], routerMetadata = None,
      updates = [], title = ''New Chat'', lastTokenTimestamp = None, dbWrites = [], wire = []\<rparr>"

definition exRoot :: Message where
  "exRoot = \<lparr>msg_id = ''root'', msg_from = ''system'', msg_content = [],
     ancestors = Some [], children = Some [''m1'']\<rparr>"

definition exM1 :: Message where
  "exM1 = \<lparr>msg_id = ''m1'', msg_from = ''user'', msg_content = ''hi'',
     ancestors = Some [''root''], children = Some [''m2'']\<rparr>"

definition exM2 :: Message where
  "exM2 = \<lparr>msg_id = ''m2'', msg_from = ''assistant'', msg_content = ''hello'',
     ancestors = Some [''root'', ''m1''], children = Some []\<rparr>"

text \<open>Kinds of events used in the statements about the loop body: the events of the
  side channels, and the events a passed-down token yields.\<close>

definition isToolCall :: "MessageUpdate \<Rightarrow> bool" where
  "isToolCall e = (case e of ToolCall u n ps \<Rightarrow> True | _ \<Rightarrow> False)"

definition isSide :: "MessageUpdate \<Rightarrow> bool" where
  "isSide e = (case e of
       ReasoningStream t \<Rightarrow> True
     | ToolCall u n ps \<Rightarrow> True
     | ToolResultUpdate u r \<Rightarrow> True
     | ToolError u msg \<Rightarrow> True
     | _ \<Rightarrow> False)"

definition tokenEvents :: "string \<Rightarrow> MessageUpdate list \<Rightarrow> bool" where
  "tokenEvents t evs = (evs = [Stream t] \<or> evs = [ReasoningStream t]
      \<or> (\<exists>s. evs = [ReasoningStatus s, ReasoningStream t]))"

definition abortingObs :: Obs where
  "abortingObs = \<lparr>now = 2000, abortTime = Some 1500, resolvedSummary = None\<rparr>"

text \<open>Examples of the follow-up completion: one that answers, one that throws, and one
  that, while it runs, announces and makes a tool invocation of its own before it
  answers.\<close>

definition answers :: "string \<Rightarrow> FollowUp" where
  "answers s = \<lparr>fu_events = [], fu_calls = [], fu_result = Inr s\<rparr>"



text \<open>An example of the tool path: one server, one tool, a call the model issues for it, a
  tool that answers 42, and the given follow-up completion.\<close>

definition toolEnv :: "FollowUp \<Rightarrow> McpEnv" where
  "toolEnv fu =
     \<lparr>servers = [''srv''],
      toolsAndMapping = Some (1, [''srv_search'' \<mapsto> (''srv'', ''search'')]),
      completion = Some (Some \<lparr>call_type = ''function'', fn_name = Some ''srv_search'',
                               fn_arguments = Some ''{}''\<rparr>),
      callMcpTool = (\<lambda>s t a. Inr ''42''),
      randomUUID = ''u1'',
      lastContent = Some ''q'',
      synthesize = (\<lambda>p. fu),
      parseJson = (\<lambda>s. Inr (JObj []))\<rparr>"

text \<open>An example of the inline command: a parser that rejects the arguments, a tool that
  answers, and a context whose last message is the user's.\<close>

definition badJson :: "string \<Rightarrow> string + json" where
  "badJson s = Inl ''Unexpected token b in JSON at position 1''"

definition okTool :: "string \<Rightarrow> string \<Rightarrow> json \<Rightarrow> string + string" where
  "okTool s t a = Inr ''ok''"

definition userSays :: "string \<Rightarrow> EndpointMessage list" where
  "userSays c = [\<lparr>em_from = ''user'', em_content = c\<rparr>]"

text \<open>The servers are configured and list a tool, and the model, asked for a tool call,
  returns none.\<close>

definition noCallEnv :: "string list \<Rightarrow> McpEnv" where
  "noCallEnv names =
     \<lparr>servers = names,
      toolsAndMapping = Some (1, [''server_tool'' \<mapsto> (''server'', ''tool'')]),
      completion = Some None,
      callMcpTool = (\<lambda>s t a. Inr ''ok''),
      randomUUID = ''u1'',
      lastContent = Some ''/mcp server.tool {bad json'',
      synthesize = (\<lambda>p. answers ''ok''),
      parseJson = badJson\<rparr>"

text \<open>Kinds of events used in the statements about reasoning, a provider stream of token
  outputs each with its observation, and further examples: a model in summarize mode, a
  model in tokens mode with an empty begin marker, and a turn in which the summary of the
  reasoning is switched on: it is requested at the first reasoning token (\<open>askObs\<close>,
  five seconds after the start) and has arrived at the second (\<open>summaryObs\<close>).\<close>

definition isReasoningStatus :: "MessageUpdate \<Rightarrow> bool" where
  "isReasoningStatus e = (case e of ReasoningStatus s \<Rightarrow> True | _ \<Rightarrow> False)"

definition toks :: "(Obs \<times> string) list \<Rightarrow> Step list" where
  "toks ots = map (\<lambda>ot. tok (fst ot) (snd ot)) ots"

definition summarizeModel :: Model where
  "summarizeModel = \<lparr>reasoningCfg = Some Summarize, stop = None\<rparr>"

definition endOnlyModel :: Model where
  "endOnlyModel = \<lparr>reasoningCfg = Some (Tokens [] ''</think>''), stop = None\<rparr>"

definition askObs :: Obs where
  "askObs = \<lparr>now = 6000, abortTime = None, resolvedSummary = None\<rparr>"

definition summaryObs :: Obs where
  "summaryObs = \<lparr>now = 6500, abortTime = None, resolvedSummary = Some ''Thinking about b''\<rparr>"

definition laterObs :: Obs where
  "laterObs = \<lparr>now = 7000, abortTime = None, resolvedSummary = None\<rparr>"

definition summaryEnv :: Env where
  "summaryEnv = plainEnv\<lparr>REASONING_SUMMARY := True\<rparr>"

section \<open>Properties of the encoder\<close>

lemma length_padEnd: "length (padEnd n c s) = max n (length s)"
  by (simp add: padEnd_def)

lemma update_status_error:
  "update r i t s (Status Error msg) =
     s\<lparr>updates := updates s @ [Status Error msg], wire := wire s @ [Line (Status Error msg)]\<rparr>"
  by (simp add: update_def applyEvent_def encode_def isPersisted_def)

text \<open>
  C10. A Stream update whose token is the empty string is dropped by the encoder: the whole
  state of the turn (message content, persisted updates, every other field, the chunks
  written) is the state before the event.
\<close>

theorem update_empty_stream_dropped:
  "update isRouter initialMessageContent t s (Stream []) = s"
  by (simp add: update_def)

text \<open>
  C9. A Stream event that is written (its token is not empty) is written as one line whose
  token is the original token filled up with NUL characters to at least 16 characters, and
  the line of a FinalAnswer event is followed at once by a block of 4096 spaces.
\<close>

theorem encoder_padding:
  "wire (update r i t s (Stream (c # cs)))
     = wire s @ [Line (Stream (padEnd 16 (CHR 0x00) (c # cs)))]
   \<and> length (padEnd 16 (CHR 0x00) (c # cs)) = max 16 (length (c # cs))
   \<and> take (length (c # cs)) (padEnd 16 (CHR 0x00) (c # cs)) = c # cs
   \<and> wire (update r i t s (FinalAnswer txt intr))
     = wire s @ [Line (FinalAnswer txt intr), Raw (replicate 4096 CHR '' '')]"
  by (simp add: update_def applyEvent_def encode_def isPersisted_def padEnd_def)

section \<open>Properties of a turn\<close>

text \<open>
  C5. After the events of the producer have been handled, the turn writes exactly this: the
  caught error when the producer threw (an error was reported), otherwise the synthetic
  error, a Status event of status Error with the message
  \<open>No output was generated. Something went wrong.\<close>, when the content of the target
  message equals its content at turn start, and otherwise nothing. So the no-output error
  is emitted if and only if no error was reported and the turn produced zero content. (The
  route records an error only in its \<open>catch\<close>; the generator itself yields no Status
  event, see \<open>generate_no_status\<close> below.)
\<close>

theorem no_output_error_iff:
  "wire (start r s0 tevs oc tEnd) =
     wire (runUpdates r (content s0) (s0\<lparr>dbWrites := dbWrites s0 @ [SetTitle (title s0)]\<rparr>) tevs)
       @ (case oc of
            Threw msg \<Rightarrow> [Line (Status Error (Some msg))]
          | Returned \<Rightarrow>
              (if content (runUpdates r (content s0)
                             (s0\<lparr>dbWrites := dbWrites s0 @ [SetTitle (title s0)]\<rparr>) tevs)
                    = content s0
               then [Line (Status Error (Some ''No output was generated. Something went wrong.''))]
               else []))"
  by (simp add: start_def tryCatch_def update_status_error noOutputError_def Let_def
        split: Outcome.splits)

section \<open>Properties of deleting a message\<close>

lemma removeChild_eq:
  "removeChild i m = m\<lparr>children := map_option (filter (\<lambda>c. c \<noteq> i)) (children m)\<rparr>"
proof (cases "children m")
  case None
  then show ?thesis by (simp add: removeChild_def)
next
  case (Some a)
  show ?thesis
  proof (cases "i \<in> set a")
    case True
    with Some show ?thesis by (simp add: removeChild_def)
  next
    case False
    then have "filter (\<lambda>c. c \<noteq> i) a = a" by (auto simp: filter_id_conv)
    with Some False show ?thesis by (simp add: removeChild_def)
  qed
qed

lemma keepMessage_eq:
  "keepMessage i m = (msg_id m \<noteq> i \<and> (\<exists>a. ancestors m = Some a \<and> i \<notin> set a))"
  by (cases "ancestors m") (auto simp: keepMessage_def)

text \<open>
  C2, as the claim states it, fails: in the conversation root \<open>\<rightarrow>\<close> m1 \<open>\<rightarrow>\<close> m2, deleting the
  interior message m1 also removes its descendant m2; only the root is left (with m1
  taken out of its children).
\<close>

theorem deleteMessage_keeps_descendants_counterexample:
  "deleteMessage [exRoot, exM1, exM2] ''m1'' 1 = Inr [exRoot\<lparr>children := Some []\<rparr>]"
  by (simp add: deleteMessage_def keepMessage_def removeChild_def exRoot_def exM1_def exM2_def)

text \<open>
  C2, amended. For a message id present in the collection (and a write the store
  acknowledges), delete-message keeps, in their order, exactly the messages that are not
  the deleted one, have an ancestors list, and do not have the deleted id among their
  ancestors; each of them is unchanged but for its children list, which loses the deleted
  id. So the deleted message and all its descendants are removed, no remaining message
  mentions the deleted id in its ancestors or children, and nothing is reparented.
\<close>

theorem deleteMessage_removes_subtree:
  assumes "messageId \<in> set (map msg_id messages)" and "0 < modifiedCount"
  shows "\<exists>result. deleteMessage messages messageId modifiedCount = Inr result
    \<and> result = map (\<lambda>m. m\<lparr>children := map_option (filter (\<lambda>c. c \<noteq> messageId)) (children m)\<rparr>)
         (filter (\<lambda>m. msg_id m \<noteq> messageId \<and> (\<exists>a. ancestors m = Some a \<and> messageId \<notin> set a))
            messages)
    \<and> messageId \<notin> set (map msg_id result)
    \<and> (\<forall>m \<in> set messages. (\<exists>a. ancestors m = Some a \<and> messageId \<in> set a) \<longrightarrow> m \<notin> set result)
    \<and> (\<forall>m \<in> set result. (\<exists>a. ancestors m = Some a \<and> messageId \<notin> set a)
           \<and> (\<forall>c. children m = Some c \<longrightarrow> messageId \<notin> set c))"
proof -
  let ?keep = "\<lambda>m. msg_id m \<noteq> messageId \<and> (\<exists>a. ancestors m = Some a \<and> messageId \<notin> set a)"
  let ?strip = "\<lambda>m. m\<lparr>children := map_option (filter (\<lambda>c. c \<noteq> messageId)) (children m)\<rparr>"
  let ?result = "map ?strip (filter ?keep messages)"
  have k: "keepMessage messageId = ?keep" by (rule ext) (simp add: keepMessage_eq)
  have r: "removeChild messageId = ?strip" by (rule ext) (simp add: removeChild_eq)
  have d: "deleteMessage messages messageId modifiedCount = Inr ?result"
    using assms by (simp add: deleteMessage_def k r)
  have a1: "messageId \<notin> set (map msg_id ?result)" by auto
  have a2: "\<forall>m \<in> set ?result. (\<exists>a. ancestors m = Some a \<and> messageId \<notin> set a)
           \<and> (\<forall>c. children m = Some c \<longrightarrow> messageId \<notin> set c)" by auto
  have a3: "\<forall>m \<in> set messages. (\<exists>a. ancestors m = Some a \<and> messageId \<in> set a) \<longrightarrow> m \<notin> set ?result"
    using a2 by auto
  show ?thesis using d a1 a2 a3 by blast
qed

theorem deleteMessage_removes_subtree_witness:
  "''m1'' \<in> set (map msg_id [exRoot, exM1, exM2]) \<and> (0::nat) < 1
   \<and> deleteMessage [exRoot, exM1, exM2] ''m1'' 1 = Inr [exRoot\<lparr>children := Some []\<rparr>]
   \<and> exM2 \<notin> set [exRoot\<lparr>children := Some []\<rparr>]"
  using deleteMessage_removes_subtree [of "''m1''" "[exRoot, exM1, exM2]" 1]
  by (simp add: exRoot_def exM1_def exM2_def)

section \<open>Properties of the generator\<close>

text \<open>
  C1. The claim: in tokens mode with the markers <think> and </think>, on the tokens
  a, <think>, b, c, </think>, d the Reasoning.Stream events are those of the bracketed
  span and the FinalAnswer text is \<open>ad\<close>. The generator at this input, the last
  output carrying the whole generated text (first run) or a closing special output
  carrying it (second run): Reasoning.Stream events are emitted for b and c, and the
  FinalAnswer text is \<open>>d\<close> in both runs, not \<open>ad\<close>. The indices of the markers are
  looked up in the reasoning buffer, which starts at the begin marker, and are then used
  to cut the text, which starts one character earlier.
\<close>

theorem tokens_mode_example_final_answer:
  "generate thinkModel plainEnv
     [tok quiet ''a'', tok quiet ''<think>'', tok quiet ''b'', tok quiet ''c'',
      tok quiet ''</think>'', Yielded (finalOutput ''d'' False ''a<think>bc</think>d'') quiet]
   = ([Stream ''a'', ReasoningStream ''b'', ReasoningStream ''c'', ReasoningStatus ''Done in 0s.'',
       FinalAnswer ''>d'' True], Returned)
  \<and> generate thinkModel plainEnv
     [tok quiet ''a'', tok quiet ''<think>'', tok quiet ''b'', tok quiet ''c'',
      tok quiet ''</think>'', tok quiet ''d'',
      Yielded (finalOutput [] True ''a<think>bc</think>d'') quiet]
   = ([Stream ''a'', ReasoningStream ''b'', ReasoningStream ''c'', ReasoningStatus ''Done in 0s.'',
       Stream ''d'', FinalAnswer ''>d'' False], Returned)"
  by code_simp

section \<open>Properties of the loop body\<close>

lemma isToolCall_simps [simp]: "isToolCall (ToolCall u n ps)"
  by (simp add: isToolCall_def)

lemma publishCall_events: "list_all isToolCall (fst (publishCall uuid b))"
  by (cases "tb_name b") (auto simp: publishCall_def)

lemma publishParsed_events: "list_all isToolCall (fst (publishParsed env uuid b))"
proof (cases "jsonParse env (tb_args b)")
  case (Inl a)
  then show ?thesis by (simp add: publishParsed_def)
next
  case (Inr v)
  then show ?thesis by (cases v) (auto simp: publishParsed_def)
qed

lemma handleToolCallDelta_events:
  assumes "list_all isToolCall (fst acc)"
  shows "list_all isToolCall (fst (handleToolCallDelta env acc d))"
proof -
  let ?buf = "mergeDelta (case toolArgBuffers (snd acc) (deltaUuid d) of Some b \<Rightarrow> b | None \<Rightarrow> emptyBuf) d"
  obtain ev1 b1 where p1: "publishCall (deltaUuid d) ?buf = (ev1, b1)" by force
  obtain ev2 b2 where p2: "publishParsed env (deltaUuid d) b1 = (ev2, b2)" by force
  have "list_all isToolCall ev1" using publishCall_events[of "deltaUuid d" ?buf] p1 by simp
  moreover have "list_all isToolCall ev2" using publishParsed_events[of env "deltaUuid d" b1] p2 by simp
  ultimately show ?thesis using assms p1 p2 by (simp add: handleToolCallDelta_def Let_def)
qed

lemma foldl_handleToolCallDelta_events:
  "list_all isToolCall (fst acc) \<Longrightarrow> list_all isToolCall (fst (foldl (handleToolCallDelta env) acc ds))"
  by (induction ds arbitrary: acc) (simp_all add: handleToolCallDelta_events)

lemma handleToolCallDeltas_events:
  "list_all isToolCall (fst (handleToolCallDeltas env out st))"
  by (simp add: handleToolCallDeltas_def foldl_handleToolCallDelta_events)

lemma isToolCall_isSide: "list_all isToolCall xs \<Longrightarrow> list_all isSide xs"
  by (induction xs) (auto simp: isToolCall_def isSide_def split: MessageUpdate.splits)

lemma handleReasoningDelta_events: "list_all isSide (fst (handleReasoningDelta out st))"
  by (cases "reasoningDelta out") (auto simp: handleReasoningDelta_def isSide_def)

lemma handleToolResultDelta_events: "list_all isSide (handleToolResultDelta out)"
  by (cases "toolResultDelta out") (auto simp: handleToolResultDelta_def isSide_def Let_def)


lemma passReasoning_down:
  assumes "case markers m of None \<Rightarrow> True
           | Some (b, e) \<Rightarrow> lastIndexOf (reasoningBuffer st @ t) e = None"
  shows "\<exists>evs st'. passReasoning m env ob st t = (evs, st', abortCheck env ob) \<and> tokenEvents t evs"
proof (cases "markers m")
  case None
  then show ?thesis by (simp add: passReasoning_def tokenEvents_def)
next
  case (Some be)
  obtain b e where "be = (b, e)" by (cases be)
  with Some assms show ?thesis by (simp add: passReasoning_def tokenEvents_def)
qed

lemma passToken_down:
  assumes "\<not> tok_special (token out)"
    and "case markers m of None \<Rightarrow> True
         | Some (b, e) \<Rightarrow> tok_text (token out) \<noteq> b \<and> tok_text (token out) \<noteq> e \<and>
             (\<not> reasoning_on st \<or> lastIndexOf (reasoningBuffer st @ tok_text (token out)) e = None)"
  shows "\<exists>evs st'. passToken m env ob st out = (evs, st', abortCheck env ob)
            \<and> tokenEvents (tok_text (token out)) evs"
proof (cases "reasoning_on st")
  case False
  with assms show ?thesis
    by (cases "markers m") (auto simp: passToken_def tokenEvents_def)
next
  case True
  have pr: "case markers m of None \<Rightarrow> True
           | Some (b, e) \<Rightarrow> lastIndexOf (reasoningBuffer st @ tok_text (token out)) e = None"
    using assms(2) True by (cases "markers m") auto
  have "passToken m env ob st out = passReasoning m env ob st (tok_text (token out))"
    using assms True by (cases "markers m") (auto simp: passToken_def)
  with passReasoning_down[OF pr] show ?thesis by simp
qed

lemma passesDown_step:
  assumes "passesDown m env st out ob"
  shows "\<exists>side st' evs. step m env st out ob = (side @ evs, st', abortCheck env ob)
           \<and> list_all isSide side \<and> tokenEvents (tok_text (token out)) evs"
proof -
  obtain ev1 st1 where r1: "handleReasoningDelta out (settle ob st) = (ev1, st1)" by force
  obtain ev2 st2 where r2: "handleToolCallDeltas env out st1 = (ev2, st2)" by force
  have s1: "list_all isSide ev1" using handleReasoningDelta_events[of out "settle ob st"] r1 by simp
  have s2: "list_all isSide ev2" using handleToolCallDeltas_events[of env out st1] r2
    by (simp add: isToolCall_isSide)
  have s3: "list_all isSide (handleToolResultDelta out)" by (rule handleToolResultDelta_events)
  from assms r1 r2 have pd: "completionText out = None" "\<not> tok_special (token out)"
     "(case markers m of None \<Rightarrow> True | Some (b, e) \<Rightarrow>
               tok_text (token out) \<noteq> b \<and> tok_text (token out) \<noteq> e \<and>
               (\<not> reasoning_on st2 \<or> lastIndexOf (reasoningBuffer st2 @ tok_text (token out)) e = None))"
    by (simp_all add: passesDown_def)
  from passToken_down[OF pd(2) pd(3)] obtain evs st' where
    pt: "passToken m env ob st2 out = (evs, st', abortCheck env ob)"
    and te: "tokenEvents (tok_text (token out)) evs" by blast
  have "step m env st out ob = ((ev1 @ ev2 @ handleToolResultDelta out) @ evs, st', abortCheck env ob)"
    using r1 r2 pd(1) pt by (simp add: step_def)
  moreover have "list_all isSide (ev1 @ ev2 @ handleToolResultDelta out)" using s1 s2 s3 by simp
  ultimately show ?thesis using te by blast
qed


lemma isSide_not_final: "list_all isSide xs \<Longrightarrow> \<not> list_ex isFinalAnswer xs"
  by (induction xs) (auto simp: isSide_def isFinalAnswer_def split: MessageUpdate.splits)

lemma tokenEvents_not_final: "tokenEvents t evs \<Longrightarrow> \<not> list_ex isFinalAnswer evs"
  by (auto simp: tokenEvents_def isFinalAnswer_def)

lemma update_not_final:
  assumes "\<not> isFinalAnswer e"
  shows "interrupted (update r i t s e) = interrupted s
       \<and> content (update r i t s e) = content s @ streamToken e"
proof (cases e)
  case (Status k msg)
  then show ?thesis
    by (cases k) (simp_all add: update_def applyEvent_def isPersisted_def streamToken_def Let_def)
next
  case (Stream tk)
  then show ?thesis
    by (cases tk) (simp_all add: update_def applyEvent_def isPersisted_def streamToken_def Let_def)
next
  case (FinalAnswer x1 x2)
  with assms show ?thesis by (simp add: isFinalAnswer_def)
qed (simp_all add: update_def applyEvent_def isPersisted_def streamToken_def Let_def)

lemma runUpdates_not_final:
  "\<not> list_ex isFinalAnswer evs \<Longrightarrow>
     interrupted (runUpdates r i s (map (Pair t) evs)) = interrupted s
   \<and> content (runUpdates r i s (map (Pair t) evs)) = content s @ concat (map streamToken evs)"
proof (induction evs arbitrary: s)
  case Nil
  then show ?case by (simp add: runUpdates_def)
next
  case (Cons e evs)
  then have nf: "\<not> isFinalAnswer e" and rest: "\<not> list_ex isFinalAnswer evs" by simp_all
  have "runUpdates r i s (map (Pair t) (e # evs)) = runUpdates r i (update r i t s e) (map (Pair t) evs)"
    by (simp add: runUpdates_def)
  with Cons.IH[OF rest, of "update r i t s e"] update_not_final[OF nf, of r i t s]
  show ?case by simp
qed

text \<open>
  C3, as the claim states it, fails: with the abort registry holding a timestamp (1500)
  newer than \<open>promptedAt\<close> (1000), the generator stops after the token \<open>a\<close> and the
  turn ends with the partial content \<open>a\<close>, but no FinalAnswer is emitted and the
  interrupted flag of the message is never set.
\<close>

theorem abort_final_answer_counterexample:
  "generate plainModel plainEnv
     [Yielded (tokenOutput ''a'') abortingObs, Yielded (finalOutput ''b'' False ''ab'') quiet]
     = ([Stream ''a''], Returned)
   \<and> abortTime abortingObs = Some 1500 \<and> promptedAt plainEnv < 1500
   \<and> interrupted (start False emptyTurn [(2000, Status Started None), (2000, Stream ''a'')]
                    Returned 2000) = None
   \<and> content (start False emptyTurn [(2000, Status Started None), (2000, Stream ''a'')]
                Returned 2000) = ''a''"
  by code_simp

text \<open>
  C3, amended. In every state of the generator, when an output is passed down as a Stream
  or Reasoning.Stream token (so that the abort check is reached) and the abort registry
  holds a timestamp newer than \<open>promptedAt\<close>, the generator returns after the events of
  this output whatever the rest of the provider stream is; these events contain no
  FinalAnswer, so handling them leaves the interrupted flag of the target message as it
  was and appends exactly the streamed tokens to its content.
\<close>

theorem abort_stops_generation:
  assumes "passesDown m env st out ob" and "abortTime ob = Some d" and "promptedAt env < d"
  shows "run m env st (Yielded out ob # rest) = (fst (step m env st out ob), Returned)
       \<and> \<not> list_ex isFinalAnswer (fst (step m env st out ob))
       \<and> interrupted (runUpdates r i s (map (Pair t) (fst (step m env st out ob)))) = interrupted s
       \<and> content (runUpdates r i s (map (Pair t) (fst (step m env st out ob))))
           = content s @ concat (map streamToken (fst (step m env st out ob)))"
proof -
  from passesDown_step[OF assms(1)] obtain side st' evs where
    st: "step m env st out ob = (side @ evs, st', abortCheck env ob)"
    and sd: "list_all isSide side" and te: "tokenEvents (tok_text (token out)) evs" by blast
  have br: "abortCheck env ob = Break" using assms(2,3) by (simp add: abortCheck_def)
  have nf: "\<not> list_ex isFinalAnswer (side @ evs)"
    using isSide_not_final[OF sd] tokenEvents_not_final[OF te] by simp
  have "run m env st (Yielded out ob # rest) = (side @ evs, Returned)"
    using st br by simp
  with st nf runUpdates_not_final[OF nf, of r i s t] show ?thesis by simp
qed

theorem abort_stops_generation_witness:
  "passesDown plainModel plainEnv (initState plainModel plainEnv) (tokenOutput ''a'') abortingObs
   \<and> abortTime abortingObs = Some 1500 \<and> promptedAt plainEnv < 1500
   \<and> run plainModel plainEnv (initState plainModel plainEnv)
        [Yielded (tokenOutput ''a'') abortingObs, Yielded (finalOutput ''b'' False ''ab'') quiet]
       = ([Stream ''a''], Returned)
   \<and> interrupted (runUpdates False [] emptyTurn (map (Pair 2000) [Stream ''a''])) = None
   \<and> content (runUpdates False [] emptyTurn (map (Pair 2000) [Stream ''a''])) = ''a''"
proof -
  have h1: "passesDown plainModel plainEnv (initState plainModel plainEnv) (tokenOutput ''a'') abortingObs"
    by code_simp
  have h2: "abortTime abortingObs = Some 1500" by (simp add: abortingObs_def)
  have h3: "promptedAt plainEnv < 1500" by (simp add: plainEnv_def)
  have e: "fst (step plainModel plainEnv (initState plainModel plainEnv) (tokenOutput ''a'') abortingObs)
             = [Stream ''a'']" by code_simp
  have i: "interrupted emptyTurn = None" "content emptyTurn = []" by (simp_all add: emptyTurn_def)
  from abort_stops_generation[OF h1 h2 h3,
      of "[Yielded (finalOutput ''b'' False ''ab'') quiet]" False "[]" emptyTurn 2000]
  show ?thesis using h1 h2 h3 e i by (simp add: streamToken_def)
qed

section \<open>Properties of the tool path\<close>






section \<open>Properties of the inline tool command\<close>

text \<open>
  C7, as the claim states it, fails. The message \<open>server.tool {bad json\<close> is not an inline
  command for the endpoint (the pattern asks for the \<open>/mcp\<close> prefix): the hook does not
  answer, the context goes to the model, and the turn is the model's (here a streamed
  \<open>Hi\<close> and the final answer \<open>Hi!\<close>). With the prefix but a server that is not
  configured, the final answer reports the unknown server, not the arguments: the server
  is looked up before the arguments are parsed. With the prefix and a configured server,
  an endpoint of type \<open>completions\<close> sends the context to the model all the same: only the
  \<open>chat_completions\<close> handler has the hook. And under the generator with the
  model-issued tool path, the model is asked for a tool call before the endpoint is
  called, and when it returns one the turn ends on the tool path, with tool events and
  the synthesis as its final answer.
\<close>

theorem inline_command_counterexample:
  "inlineMcpHook [''server''] badJson okTool (userSays ''server.tool {bad json'') = None
   \<and> endpointOai ChatCompletions [''server''] badJson okTool (userSays ''server.tool {bad json'')
        [tokenOutput ''Hi'', finalOutput ''!'' False ''Hi!'']
     = ([tokenOutput ''Hi'', finalOutput ''!'' False ''Hi!''], True)
   \<and> generateFrom plainModel plainEnv quiet
        [tokenOutput ''Hi'', finalOutput ''!'' False ''Hi!'']
     = ([Stream ''Hi'', FinalAnswer ''Hi!'' True], Returned)
   \<and> generateFrom plainModel plainEnv quiet
        (fst (endpointOai ChatCompletions [''server''] badJson okTool
                (userSays ''/mcp other.tool {bad json'')
                [tokenOutput ''Hi'', finalOutput ''!'' False ''Hi!'']))
     = ([FinalAnswer ''Unknown MCP server: other'' True], Returned)
   \<and> endpointOai Completions [''server''] badJson okTool (userSays ''/mcp server.tool {bad json'')
        [tokenOutput ''Hi'', finalOutput ''!'' False ''Hi!'']
     = ([tokenOutput ''Hi'', finalOutput ''!'' False ''Hi!''], True)
   \<and> generateWithMcp ((toolEnv (answers ''It is 42.''))\<lparr>lastContent := Some ''/mcp srv.search {bad json''\<rparr>)
        plainModel plainEnv
        (map (\<lambda>out. Yielded out quiet)
           (fst (endpointOai ChatCompletions [''srv''] badJson okTool
                   (userSays ''/mcp srv.search {bad json'')
                   [tokenOutput ''Hi'', finalOutput ''!'' False ''Hi!''])))
     = ([ToolCall ''u1'' ''srv_search'' [], ToolETA ''u1'' 10,
         ToolResultUpdate ''u1'' \<lparr>tr_status = ''success'', tr_name = ''srv_search'',
            tr_parameters = [], tr_toolId = None, tr_outputs = [''42''], tr_display = True\<rparr>,
         FinalAnswer ''It is 42.'' False], Returned)"
  by code_simp

lemma single_eq: "openAIChatToTextGenerationSingle c = [finalOutput c False c]"
  by (simp add: openAIChatToTextGenerationSingle_def finalOutput_def)

lemma removeReasoningSection_empty_buffer: "removeReasoningSection b e [] txt = txt"
  by (cases "b = []"; cases "e = []")
     (simp_all add: removeReasoningSection_def indexOf_def lastIndexOf_def)

lemma settle_initState: "settle ob (initState m env) = initState m env"
  by (cases "resolvedSummary ob") (simp_all add: settle_def initState_def)

lemma step_final_plain:
  assumes "c \<noteq> []" and "reasoningCfg m = None \<or> reasoningCfg m = Some (Tokens b e)"
  shows "step m env (initState m env) (finalOutput c False c) ob
     = ([FinalAnswer (snd (completedText m (finalOutput c False c) c))
                     (fst (completedText m (finalOutput c False c) c))],
        initState m env, Continue)"
proof -
  have side1: "handleReasoningDelta (finalOutput c False c) (initState m env) = ([], initState m env)"
    by (simp add: handleReasoningDelta_def finalOutput_def)
  have side2: "handleToolCallDeltas env (finalOutput c False c) (initState m env) = ([], initState m env)"
    by (simp add: handleToolCallDeltas_def finalOutput_def)
  have side3: "handleToolResultDelta (finalOutput c False c) = []"
    by (simp add: handleToolResultDelta_def finalOutput_def)
  have ct: "completionText (finalOutput c False c) = Some c"
    using assms(1) by (simp add: completionText_def finalOutput_def)
  obtain intr tx where cp: "completedText m (finalOutput c False c) c = (intr, tx)" by force
  have "complete m env ob (initState m env) (finalOutput c False c) c = ([FinalAnswer tx intr], Continue)"
    using assms(2) cp
    by (auto simp: complete_def initState_def removeReasoningSection_empty_buffer)
  then show ?thesis
    using side1 side2 side3 ct cp by (simp add: step_def settle_initState)
qed

lemma withoutSideChannels_finalOutput:
  "withoutSideChannels (Yielded (finalOutput t sp g) ob) = Yielded (finalOutput t sp g) ob"
  by (simp add: withoutSideChannels_def finalOutput_def)

text \<open>
  C7, amended. Let the endpoint be of type \<open>chat_completions\<close>, the last message be the
  user's and of the form \<open>/mcp server.tool args\<close> with the name of a configured server
  and non-blank arguments that do not parse as JSON, and the model have no reasoning
  configuration or be in tokens mode. Then the endpoint does not send the context to the
  model: it returns the single output whose text is \<open>Invalid JSON args: \<close> followed by
  the parser's message. The generator, fed with it, yields exactly one FinalAnswer (after
  the Started-reasoning status, if the model starts in reasoning mode) and no Stream
  event, whatever the model-backed parts of its environment would return; the text of the
  FinalAnswer is that message, right trimmed and with trailing stop tokens removed (just
  right trimmed when the model has no stop tokens). Under the generator with the
  model-issued tool path the turn is the same whenever that path falls through (listing
  the tools throws or lists none, or the completion request throws or returns no function
  call with a name).
\<close>

theorem inline_command_bad_json:
  assumes "msgs \<noteq> []" and "em_from (last msgs) = ''user''"
    and "matchMcpCommand (em_content (last msgs)) = Some (serverName, toolName, Some raw)"
    and "serverName \<in> set serverNames" and "trim raw \<noteq> []" and "parse raw = Inl msg"
    and "reasoningCfg m = None \<or> reasoningCfg m = Some (Tokens b e)"
  shows "endpointOai ChatCompletions serverNames parse callTool msgs modelStream
           = (openAIChatToTextGenerationSingle (''Invalid JSON args: '' @ msg), False)
    \<and> generateFrom m env ob
          (fst (endpointOai ChatCompletions serverNames parse callTool msgs modelStream))
        = ((if startsInReasoning m then [ReasoningStatus ''Started reasoning...''] else [])
             @ [FinalAnswer
                  (snd (completedText m (finalOutput (''Invalid JSON args: '' @ msg) False
                                           (''Invalid JSON args: '' @ msg))
                          (''Invalid JSON args: '' @ msg)))
                  (fst (completedText m (finalOutput (''Invalid JSON args: '' @ msg) False
                                           (''Invalid JSON args: '' @ msg))
                          (''Invalid JSON args: '' @ msg)))],
           Returned)
    \<and> (mcpToolFlow me = FallThrough \<longrightarrow>
          generateWithMcp me m env
            (map (\<lambda>out. Yielded out ob)
               (fst (endpointOai ChatCompletions serverNames parse callTool msgs modelStream)))
          = generateFrom m env ob
              (fst (endpointOai ChatCompletions serverNames parse callTool msgs modelStream)))
    \<and> (stop m = None \<longrightarrow>
          completedText m (finalOutput (''Invalid JSON args: '' @ msg) False
                             (''Invalid JSON args: '' @ msg))
            (''Invalid JSON args: '' @ msg)
          = (True, trimEnd (''Invalid JSON args: '' @ msg)))"
proof -
  let ?c = "''Invalid JSON args: '' @ msg"
  have ne: "serverNames \<noteq> []" using assms(4) by auto
  have hook: "inlineMcpHook serverNames parse callTool msgs = Some (openAIChatToTextGenerationSingle ?c)"
    using assms(1-6) ne by (simp add: inlineMcpHook_def)
  then have ep: "endpointOai ChatCompletions serverNames parse callTool msgs modelStream
                   = (openAIChatToTextGenerationSingle ?c, False)"
    by (simp add: endpointOai_def)
  have cne: "?c \<noteq> []" by simp
  have gen: "generateFrom m env ob [finalOutput ?c False ?c]
        = ((if startsInReasoning m then [ReasoningStatus ''Started reasoning...''] else [])
             @ [FinalAnswer (snd (completedText m (finalOutput ?c False ?c) ?c))
                            (fst (completedText m (finalOutput ?c False ?c) ?c))], Returned)"
    using step_final_plain[OF cne assms(7), of env ob]
    by (simp add: generateFrom_def generate_def)
  have mcp: "mcpToolFlow me = FallThrough \<longrightarrow>
          generateWithMcp me m env (map (\<lambda>out. Yielded out ob) [finalOutput ?c False ?c])
          = generateFrom m env ob [finalOutput ?c False ?c]"
    by (simp add: generateWithMcp_def generateFrom_def withoutSideChannels_finalOutput)
  have st: "stop m = None \<longrightarrow> completedText m (finalOutput ?c False ?c) ?c = (True, trimEnd ?c)"
    by (simp add: completedText_def stopTokens_def finalOutput_def)
  show ?thesis using ep gen mcp st by (simp add: single_eq)
qed

theorem inline_command_bad_json_witness:
  "userSays ''/mcp server.tool {bad json'' \<noteq> []
   \<and> em_from (last (userSays ''/mcp server.tool {bad json'')) = ''user''
   \<and> matchMcpCommand (em_content (last (userSays ''/mcp server.tool {bad json'')))
       = Some (''server'', ''tool'', Some ''{bad json'')
   \<and> ''server'' \<in> set [''server''] \<and> trim ''{bad json'' \<noteq> []
   \<and> badJson ''{bad json'' = Inl ''Unexpected token b in JSON at position 1''
   \<and> reasoningCfg plainModel = None
   \<and> mcpToolFlow (noCallEnv [''server'']) = FallThrough
   \<and> stop plainModel = None
   \<and> endpointOai ChatCompletions [''server''] badJson okTool
        (userSays ''/mcp server.tool {bad json'')
        [tokenOutput ''Hi'', finalOutput ''!'' False ''Hi!'']
      = (openAIChatToTextGenerationSingle
           ''Invalid JSON args: Unexpected token b in JSON at position 1'', False)
   \<and> generateFrom plainModel plainEnv quiet
        (fst (endpointOai ChatCompletions [''server''] badJson okTool
                (userSays ''/mcp server.tool {bad json'')
                [tokenOutput ''Hi'', finalOutput ''!'' False ''Hi!'']))
      = ([FinalAnswer ''Invalid JSON args: Unexpected token b in JSON at position 1'' True], Returned)
   \<and> generateWithMcp (noCallEnv [''server'']) plainModel plainEnv
        (map (\<lambda>out. Yielded out quiet)
           (fst (endpointOai ChatCompletions [''server''] badJson okTool
                   (userSays ''/mcp server.tool {bad json'')
                   [tokenOutput ''Hi'', finalOutput ''!'' False ''Hi!''])))
      = ([FinalAnswer ''Invalid JSON args: Unexpected token b in JSON at position 1'' True], Returned)"
proof -
  let ?msgs = "userSays ''/mcp server.tool {bad json''"
  let ?stream = "[tokenOutput ''Hi'', finalOutput ''!'' False ''Hi!'']"
  let ?c = "''Invalid JSON args: Unexpected token b in JSON at position 1''"
  let ?ep = "endpointOai ChatCompletions [''server''] badJson okTool ?msgs ?stream"
  have h1: "?msgs \<noteq> []" by (simp add: userSays_def)
  have h2: "em_from (last ?msgs) = ''user''" by (simp add: userSays_def)
  have h3: "matchMcpCommand (em_content (last ?msgs)) = Some (''server'', ''tool'', Some ''{bad json'')"
    by code_simp
  have h4: "''server'' \<in> set [''server'']" by simp
  have h5: "trim ''{bad json'' \<noteq> []" by code_simp
  have h6: "badJson ''{bad json'' = Inl ''Unexpected token b in JSON at position 1''"
    by (simp add: badJson_def)
  have h7: "reasoningCfg plainModel = None \<or> reasoningCfg plainModel = Some (Tokens [] [])"
    by (simp add: plainModel_def)
  have h8: "mcpToolFlow (noCallEnv [''server'']) = FallThrough"
    by (simp add: mcpToolFlow_def noCallEnv_def)
  have s: "\<not> startsInReasoning plainModel" "stop plainModel = None" "reasoningCfg plainModel = None"
    by (simp_all add: startsInReasoning_def plainModel_def)
  have t: "trimEnd ?c = ?c" by code_simp
  note inst = inline_command_bad_json[where parse = badJson and raw = "''{bad json''"
         and callTool = okTool and env = plainEnv and ob = quiet and modelStream = ?stream
         and me = "noCallEnv [''server'']", OF h1 h2 h3 h4 h5 h6 h7]
  note e0 = inst[THEN conjunct1]
  note g0 = inst[THEN conjunct2, THEN conjunct1]
  note m0 = inst[THEN conjunct2, THEN conjunct2, THEN conjunct1, rule_format, OF h8]
  note ct = inst[THEN conjunct2, THEN conjunct2, THEN conjunct2, rule_format, OF s(2)]
  have ct': "completedText plainModel (finalOutput ?c False ?c) ?c = (True, ?c)"
    using ct t by simp
  have e: "?ep = (openAIChatToTextGenerationSingle ?c, False)" using e0 by simp
  from g0 have g: "generateFrom plainModel plainEnv quiet (fst ?ep) = ([FinalAnswer ?c True], Returned)"
    by (simp add: ct' s(1))
  have w: "generateWithMcp (noCallEnv [''server'']) plainModel plainEnv
             (map (\<lambda>out. Yielded out quiet) (fst ?ep)) = ([FinalAnswer ?c True], Returned)"
    using m0 g by (rule trans)
  show ?thesis using h1 h2 h3 h4 h5 h6 h8 s(2,3) e g w by simp
qed

section \<open>Reasoning content and the final answer\<close>

subsection \<open>Searching for the markers\<close>

lemma startsWith_length: "startsWith xs p \<Longrightarrow> length p \<le> length xs"
proof -
  assume "startsWith xs p"
  then have "length (take (length p) xs) = length p" by (simp add: startsWith_def)
  then show ?thesis by simp
qed

lemma startsWith_append: "startsWith xs p \<Longrightarrow> startsWith (xs @ ys) p"
proof -
  assume a: "startsWith xs p"
  from startsWith_length[OF a] a show ?thesis by (simp add: startsWith_def)
qed

lemma lastIndexOfFrom_empty_pattern: "lastIndexOfFrom i s [] \<noteq> None"
  by (induction s arbitrary: i) (auto simp: startsWith_def split: option.splits)

lemma lastIndexOfFrom_prefix_None:
  "lastIndexOfFrom i (xs @ ys) p = None \<Longrightarrow> lastIndexOfFrom i xs p = None"
proof (induction xs arbitrary: i)
  case Nil
  then have "p \<noteq> []" using lastIndexOfFrom_empty_pattern[of i ys] by auto
  then show ?case by simp
next
  case (Cons x xs)
  from Cons.prems have t: "lastIndexOfFrom (Suc i) (xs @ ys) p = None"
    and n: "\<not> startsWith (x # xs @ ys) p"
    by (auto split: option.splits if_splits)
  from n have "\<not> startsWith (x # xs) p" using startsWith_append[of "x # xs" p ys] by auto
  with Cons.IH[OF t] show ?case by simp
qed

lemma lastIndexOf_prefix_None: "lastIndexOf (xs @ ys) p = None \<Longrightarrow> lastIndexOf xs p = None"
  by (simp add: lastIndexOf_def lastIndexOfFrom_prefix_None)

lemma lastIndexOfFrom_short: "length s < length p \<Longrightarrow> lastIndexOfFrom i s p = None"
proof (induction s arbitrary: i)
  case Nil
  then show ?case by auto
next
  case (Cons c cs)
  have "\<not> startsWith (c # cs) p"
  proof
    assume "startsWith (c # cs) p"
    from startsWith_length[OF this] Cons.prems show False by simp
  qed
  moreover have "lastIndexOfFrom (Suc i) cs p = None" using Cons by simp
  ultimately show ?case by simp
qed

lemma lastIndexOfFrom_at_end:
  "p \<noteq> [] \<Longrightarrow> lastIndexOfFrom i (xs @ p) p = Some (i + length xs)"
proof (induction xs arbitrary: i)
  case Nil
  then obtain c cs where p: "p = c # cs" by (cases p) auto
  have "lastIndexOfFrom (Suc i) cs p = None" using p by (simp add: lastIndexOfFrom_short)
  then show ?case using p by (simp add: startsWith_def)
next
  case (Cons x xs)
  then show ?case by simp
qed

lemma lastIndexOf_at_end: "p \<noteq> [] \<Longrightarrow> lastIndexOf (xs @ p) p = Some (length xs)"
  by (simp add: lastIndexOf_def lastIndexOfFrom_at_end)

lemma indexOf_prefix: "p \<noteq> [] \<Longrightarrow> indexOf (p @ ys) p = Some 0"
  by (cases p) (simp_all add: indexOf_def startsWith_def)

lemma lastIndexOf_own_prefix: "lastIndexOf (p @ ys) p \<noteq> None"
proof
  assume "lastIndexOf (p @ ys) p = None"
  then have n: "lastIndexOf p p = None" by (rule lastIndexOf_prefix_None)
  show False
  proof (cases "p = []")
    case True
    then show False using n lastIndexOfFrom_empty_pattern[of 0 "[]"] by (simp add: lastIndexOf_def)
  next
    case False
    from lastIndexOf_at_end[OF False, of "[]"] n show False by simp
  qed
qed

lemma removeReasoningSection_leading:
  assumes "e \<noteq> []"
  shows "removeReasoningSection b e (b @ r @ e) tx = drop (length (b @ r @ e)) tx"
proof -
  have l: "lastIndexOf (b @ r @ e) e = Some (length (b @ r))"
    using lastIndexOf_at_end[OF assms, of "b @ r"] by simp
  show ?thesis
  proof (cases "b = []")
    case True
    then show ?thesis using l by (simp add: removeReasoningSection_def add.assoc)
  next
    case False
    have i: "indexOf (b @ r @ e) b = Some 0" using False by (rule indexOf_prefix)
    show ?thesis using False i l by (simp add: removeReasoningSection_def add.assoc)
  qed
qed

subsection \<open>Steps on outputs that carry only a token\<close>

lemma settle_fields:
  "reasoning_on (settle ob st) = reasoning_on st"
  "reasoningBuffer (settle ob st) = reasoningBuffer st"
  by (simp_all add: settle_def split: option.splits)

lemma step_tokenOutput:
  "step m env st (tokenOutput t) ob = passToken m env ob (settle ob st) (tokenOutput t)"
proof -
  have s1: "handleReasoningDelta (tokenOutput t) (settle ob st) = ([], settle ob st)"
    by (simp add: handleReasoningDelta_def tokenOutput_def)
  have s2: "handleToolCallDeltas env (tokenOutput t) (settle ob st) = ([], settle ob st)"
    by (simp add: handleToolCallDeltas_def tokenOutput_def)
  have s3: "handleToolResultDelta (tokenOutput t) = []"
    by (simp add: handleToolResultDelta_def tokenOutput_def)
  have ct: "completionText (tokenOutput t) = None"
    by (simp add: completionText_def tokenOutput_def)
  obtain evs st' c where pt: "passToken m env ob (settle ob st) (tokenOutput t) = (evs, st', c)"
    using prod_cases3 by blast
  show ?thesis by (simp add: step_def s1 s2 s3 ct pt)
qed

lemma step_finalOutput:
  assumes "g \<noteq> []"
  shows "step m env st (finalOutput z sp g) ob
          = (fst (complete m env ob (settle ob st) (finalOutput z sp g) g), settle ob st,
             snd (complete m env ob (settle ob st) (finalOutput z sp g) g))"
proof -
  have s1: "handleReasoningDelta (finalOutput z sp g) (settle ob st) = ([], settle ob st)"
    by (simp add: handleReasoningDelta_def finalOutput_def)
  have s2: "handleToolCallDeltas env (finalOutput z sp g) (settle ob st) = ([], settle ob st)"
    by (simp add: handleToolCallDeltas_def finalOutput_def)
  have s3: "handleToolResultDelta (finalOutput z sp g) = []"
    by (simp add: handleToolResultDelta_def finalOutput_def)
  have ct: "completionText (finalOutput z sp g) = Some g"
    using assms by (simp add: completionText_def finalOutput_def)
  obtain evs c where cp: "complete m env ob (settle ob st) (finalOutput z sp g) g = (evs, c)"
    by force
  show ?thesis by (simp add: step_def s1 s2 s3 ct cp)
qed

lemma tok_text_tokenOutput [simp]:
  "tok_text (token (tokenOutput t)) = t" "tok_special (token (tokenOutput t)) = False"
  by (simp_all add: tokenOutput_def)

lemma requestSummary_fields:
  "reasoning_on (requestSummary env ob st) = reasoning_on st"
  "status (requestSummary env ob st) = status st"
  "reasoningBuffer (requestSummary env ob st) = reasoningBuffer st"
  by (simp_all add: requestSummary_def)

lemma isReasoningStatus_simps [simp]:
  "isReasoningStatus (ReasoningStatus s)" "\<not> isReasoningStatus (ReasoningStream t)"
  by (simp_all add: isReasoningStatus_def)

text \<open>A reasoning token: it is emitted as Reasoning.Stream, after the status of a summary
  that has arrived, and it is added to the buffer.\<close>

lemma step_reasoning_token:
  assumes "reasoningCfg m = Some (Tokens b e)" and "abortCheck env ob = Continue"
    and "reasoning_on st" and "r \<noteq> b" and "r \<noteq> e"
    and "lastIndexOf (reasoningBuffer st @ r) e = None"
  shows "\<exists>evs st'. step m env st (tokenOutput r) ob = (evs, st', Continue)
           \<and> filter (\<lambda>x. \<not> isReasoningStatus x) evs = [ReasoningStream r]
           \<and> reasoning_on st' \<and> reasoningBuffer st' = reasoningBuffer st @ r"
proof -
  let ?s = "settle ob st"
  let ?evs = "(if status ?s \<noteq> [] then [ReasoningStatus (status ?s)] else []) @ [ReasoningStream r]"
  let ?st' = "requestSummary env ob (?s\<lparr>reasoningBuffer := reasoningBuffer ?s @ r, status := []\<rparr>)"
  have mk: "markers m = Some (b, e)" using assms(1) by (simp add: markers_def)
  have ne: "lastIndexOf (reasoningBuffer ?s @ r) e = None" using assms(6) by (simp add: settle_fields)
  have "passReasoning m env ob ?s r = (?evs, ?st', Continue)"
    using mk ne assms(2) by (simp add: passReasoning_def)
  moreover have "passToken m env ob ?s (tokenOutput r) = passReasoning m env ob ?s r"
    using mk assms(3,4,5) by (simp add: passToken_def settle_fields)
  ultimately have stp: "step m env st (tokenOutput r) ob = (?evs, ?st', Continue)"
    by (simp add: step_tokenOutput)
  have f: "filter (\<lambda>x. \<not> isReasoningStatus x) ?evs = [ReasoningStream r]" by simp
  have i1: "reasoning_on ?st'" using assms(3) by (simp add: requestSummary_fields settle_fields)
  have i2: "reasoningBuffer ?st' = reasoningBuffer st @ r"
    by (simp add: requestSummary_fields settle_fields)
  show ?thesis using stp f i1 i2 by blast
qed

lemma reasoning_phase:
  assumes cfg: "reasoningCfg m = Some (Tokens b e)"
  shows "reasoning_on st
     \<Longrightarrow> (\<forall>ot \<in> set rs. abortCheck env (fst ot) = Continue \<and> snd ot \<noteq> b \<and> snd ot \<noteq> e)
     \<Longrightarrow> lastIndexOf (reasoningBuffer st @ concat (map snd rs)) e = None
     \<Longrightarrow> \<exists>R st'. reasoning_on st'
            \<and> reasoningBuffer st' = reasoningBuffer st @ concat (map snd rs)
            \<and> filter (\<lambda>x. \<not> isReasoningStatus x) R = map ReasoningStream (map snd rs)
            \<and> (\<forall>rest. run m env st (toks rs @ rest)
                  = (R @ fst (run m env st' rest), snd (run m env st' rest)))"
proof (induction rs arbitrary: st)
  case Nil
  have "\<forall>rest. run m env st (toks [] @ rest) = ([] @ fst (run m env st rest), snd (run m env st rest))"
    by (simp add: toks_def)
  then show ?case using Nil.prems(1) by (intro exI[where x = "[]"] exI[where x = st]) simp
next
  case (Cons ot rs)
  obtain ob r where ot: "ot = (ob, r)" by (cases ot)
  have live: "abortCheck env ob = Continue" and nb: "r \<noteq> b" "r \<noteq> e"
    using Cons.prems(2) ot by simp_all
  have "lastIndexOf ((reasoningBuffer st @ r) @ concat (map snd rs)) e = None"
    using Cons.prems(3) ot by simp
  then have pre: "lastIndexOf (reasoningBuffer st @ r) e = None" by (rule lastIndexOf_prefix_None)
  from step_reasoning_token[OF cfg live Cons.prems(1) nb pre] obtain evs st1 where
    stp: "step m env st (tokenOutput r) ob = (evs, st1, Continue)"
    and f1: "filter (\<lambda>x. \<not> isReasoningStatus x) evs = [ReasoningStream r]"
    and i1: "reasoning_on st1" and b1: "reasoningBuffer st1 = reasoningBuffer st @ r"
    by blast
  have i3: "\<forall>ot \<in> set rs. abortCheck env (fst ot) = Continue \<and> snd ot \<noteq> b \<and> snd ot \<noteq> e"
    using Cons.prems(2) by simp
  have i4: "lastIndexOf (reasoningBuffer st1 @ concat (map snd rs)) e = None"
    using Cons.prems(3) ot b1 by simp
  from Cons.IH[OF i1 i3 i4] obtain R st' where
    a: "reasoning_on st'" "reasoningBuffer st' = reasoningBuffer st1 @ concat (map snd rs)"
       "filter (\<lambda>x. \<not> isReasoningStatus x) R = map ReasoningStream (map snd rs)"
    and r: "\<forall>rest. run m env st1 (toks rs @ rest)
                  = (R @ fst (run m env st' rest), snd (run m env st' rest))"
    by blast
  have tk: "toks (ot # rs) = Yielded (tokenOutput r) ob # toks rs"
    using ot by (simp add: toks_def tok_def)
  have run': "\<forall>rest. run m env st (toks (ot # rs) @ rest)
           = ((evs @ R) @ fst (run m env st' rest), snd (run m env st' rest))"
    using stp r by (simp add: tk)
  have buf: "reasoningBuffer st' = reasoningBuffer st @ concat (map snd (ot # rs))"
    using a(2) b1 ot by simp
  have fl: "filter (\<lambda>x. \<not> isReasoningStatus x) (evs @ R) = map ReasoningStream (map snd (ot # rs))"
    using f1 a(3) ot by simp
  show ?case using a(1) buf fl run' by (intro exI[where x = "evs @ R"] exI[where x = st'] conjI)
qed

lemma step_answer_token:
  assumes "reasoningCfg m = Some (Tokens b e)" and "abortCheck env ob = Continue"
    and "\<not> reasoning_on st" and "a \<noteq> b" and "a \<noteq> e"
  shows "step m env st (tokenOutput a) ob = ([Stream a], settle ob st, Continue)"
proof -
  have mk: "markers m = Some (b, e)" using assms(1) by (simp add: markers_def)
  have "passToken m env ob (settle ob st) (tokenOutput a) = ([Stream a], settle ob st, Continue)"
    using mk assms(2,3,4,5) by (simp add: passToken_def settle_fields)
  then show ?thesis by (simp add: step_tokenOutput)
qed

lemma answer_phase:
  assumes cfg: "reasoningCfg m = Some (Tokens b e)"
  shows "\<not> reasoning_on st
     \<Longrightarrow> (\<forall>ot \<in> set as. abortCheck env (fst ot) = Continue \<and> snd ot \<noteq> b \<and> snd ot \<noteq> e)
     \<Longrightarrow> \<exists>st'. \<not> reasoning_on st' \<and> reasoningBuffer st' = reasoningBuffer st
            \<and> (\<forall>rest. run m env st (toks as @ rest)
                  = (map Stream (map snd as) @ fst (run m env st' rest), snd (run m env st' rest)))"
proof (induction as arbitrary: st)
  case Nil
  have "\<forall>rest. run m env st (toks [] @ rest)
          = (map Stream (map snd []) @ fst (run m env st rest), snd (run m env st rest))"
    by (simp add: toks_def)
  then show ?case using Nil.prems(1) by (intro exI[where x = st]) simp
next
  case (Cons ot as)
  obtain ob a where ot: "ot = (ob, a)" by (cases ot)
  have live: "abortCheck env ob = Continue" and nb: "a \<noteq> b" "a \<noteq> e"
    using Cons.prems(2) ot by simp_all
  have stp: "step m env st (tokenOutput a) ob = ([Stream a], settle ob st, Continue)"
    using step_answer_token[OF cfg live Cons.prems(1) nb] .
  have i1: "\<not> reasoning_on (settle ob st)" using Cons.prems(1) by (simp add: settle_fields)
  have i2: "\<forall>ot \<in> set as. abortCheck env (fst ot) = Continue \<and> snd ot \<noteq> b \<and> snd ot \<noteq> e"
    using Cons.prems(2) by simp
  from Cons.IH[OF i1 i2] obtain st' where
    a: "\<not> reasoning_on st'" "reasoningBuffer st' = reasoningBuffer (settle ob st)"
    and r: "\<forall>rest. run m env (settle ob st) (toks as @ rest)
                  = (map Stream (map snd as) @ fst (run m env st' rest), snd (run m env st' rest))"
    by blast
  have tk: "toks (ot # as) = Yielded (tokenOutput a) ob # toks as"
    using ot by (simp add: toks_def tok_def)
  have "\<forall>rest. run m env st (toks (ot # as) @ rest)
           = ((Stream a # map Stream (map snd as)) @ fst (run m env st' rest),
              snd (run m env st' rest))"
    using stp r by (simp add: tk)
  then have run': "\<forall>rest. run m env st (toks (ot # as) @ rest)
           = (map Stream (map snd (ot # as)) @ fst (run m env st' rest), snd (run m env st' rest))"
    using ot by simp
  have buf: "reasoningBuffer st' = reasoningBuffer st" using a(2) by (simp add: settle_fields)
  show ?case using a(1) buf run' by (intro exI[where x = st'] conjI)
qed

lemma step_begin_token:
  assumes "reasoningCfg m = Some (Tokens b e)"
  shows "step m env st (tokenOutput b) ob =
           ([], (settle ob st)\<lparr>reasoning_on := True,
                               reasoningBuffer := reasoningBuffer (settle ob st) @ b\<rparr>, Continue)"
proof -
  have mk: "markers m = Some (b, e)" using assms(1) by (simp add: markers_def)
  show ?thesis using mk by (simp add: step_tokenOutput passToken_def)
qed

lemma step_end_token:
  assumes "reasoningCfg m = Some (Tokens b e)" and "e \<noteq> b"
  shows "step m env st (tokenOutput e) ob =
           ([doneStatus env ob],
            (settle ob st)\<lparr>reasoning_on := False,
                           reasoningBuffer := reasoningBuffer (settle ob st) @ e\<rparr>, Continue)"
proof -
  have mk: "markers m = Some (b, e)" using assms(1) by (simp add: markers_def)
  show ?thesis using mk assms(2) by (simp add: step_tokenOutput passToken_def)
qed

lemma step_final_tokens:
  assumes "reasoningCfg m = Some (Tokens b e)" and "g \<noteq> []"
  shows "step m env st (finalOutput z sp g) ob =
           ([FinalAnswer (removeReasoningSection b e (reasoningBuffer st)
                            (snd (completedText m (finalOutput z sp g) g)))
                         (fst (completedText m (finalOutput z sp g) g))],
            settle ob st, Continue)"
proof -
  obtain intr tx where cp: "completedText m (finalOutput z sp g) g = (intr, tx)" by force
  have "complete m env ob (settle ob st) (finalOutput z sp g) g
          = ([FinalAnswer (removeReasoningSection b e (reasoningBuffer st) tx) intr], Continue)"
    using assms(1) cp by (simp add: complete_def settle_fields)
  then show ?thesis using cp by (simp add: step_finalOutput[OF assms(2)])
qed

text \<open>The state in which the reasoning tokens are met: reasoning mode is on and the buffer
  holds the begin marker. With an empty begin marker it is the initial state; otherwise
  it is the state after the begin marker's token, which yields nothing.\<close>

lemma run_opening:
  assumes cfg: "reasoningCfg m = Some (Tokens b e)"
  shows "\<exists>st1. reasoning_on st1 \<and> reasoningBuffer st1 = b
           \<and> (\<forall>rest. run m env (initState m env) ((if b = [] then [] else [tok obB b]) @ rest)
                  = run m env st1 rest)"
proof (cases "b = []")
  case True
  have "reasoning_on (initState m env)" using cfg True by (simp add: initState_def startsInReasoning_def)
  moreover have "reasoningBuffer (initState m env) = b" using True by (simp add: initState_def)
  ultimately show ?thesis using True by (intro exI[where x = "initState m env"]) simp
next
  case False
  let ?st1 = "(initState m env)\<lparr>reasoning_on := True,
                                 reasoningBuffer := reasoningBuffer (initState m env) @ b\<rparr>"
  have stp: "step m env (initState m env) (tokenOutput b) obB = ([], ?st1, Continue)"
    using step_begin_token[OF cfg, of env "initState m env" obB] by (simp add: settle_initState)
  have "\<forall>rest. run m env (initState m env) ((if b = [] then [] else [tok obB b]) @ rest)
                  = run m env ?st1 rest"
    using False stp by (simp add: tok_def case_prod_beta)
  moreover have "reasoning_on ?st1" by simp
  moreover have "reasoningBuffer ?st1 = b" by (simp add: initState_def)
  ultimately show ?thesis by (intro exI[where x = ?st1] conjI)
qed

subsection \<open>The final answer in tokens mode\<close>

text \<open>
  C8, as the claim states it, fails. In regex mode every token is emitted as
  Reasoning.Stream, and when the pattern does not match the FinalAnswer is the raw text:
  the token \<open>b\<close> is streamed as reasoning and the FinalAnswer \<open>bc\<close> repeats it. In
  summarize mode the same happens when the summary cannot be generated. In tokens mode a
  token that carries the end marker together with what follows it is emitted whole as
  Reasoning.Stream, and what follows the marker is then also part of the FinalAnswer
  (\<open>x\<close> below); a second reasoning section is streamed as reasoning and is kept in the
  FinalAnswer (\<open>c\<close> below); and so is the reasoning of a section that does not open the
  text (\<open>b\<close> in the last example).
\<close>

theorem reasoning_duplicated_counterexample:
  "generate regexModel plainEnv [tok quiet ''b'', Yielded (finalOutput ''c'' False ''bc'') quiet]
     = ([ReasoningStatus ''Started reasoning...'', ReasoningStream ''b'', FinalAnswer ''bc'' True],
        Returned)
   \<and> generate summarizeModel plainEnv
        [tok quiet ''b'', Yielded (finalOutput ''c'' False ''bc'') quiet]
     = ([ReasoningStatus ''Started reasoning...'', ReasoningStream ''b'',
         ReasoningStatus ''Summarizing reasoning...'', FinalAnswer ''bc'' True], Returned)
   \<and> generate thinkModel plainEnv
        [tok quiet ''<think>'', tok quiet ''b'', tok quiet ''</think>x'',
         Yielded (finalOutput ''z'' False ''<think>b</think>xz'') quiet]
     = ([ReasoningStream ''b'', ReasoningStream ''</think>x'', Stream ''x'',
         ReasoningStatus ''Done in 0s.'', FinalAnswer ''xz'' True], Returned)
   \<and> generate thinkModel plainEnv
        [tok quiet ''<think>'', tok quiet ''b'', tok quiet ''</think>'', tok quiet ''<think>'',
         tok quiet ''c'', Yielded (finalOutput ''d'' False ''<think>b</think><think>cd'') quiet]
     = ([ReasoningStream ''b'', ReasoningStatus ''Done in 0s.'', ReasoningStream ''c'',
         Stream ''<think>c'', ReasoningStatus ''Done in 0s.'', FinalAnswer ''<think>cd'' True],
        Returned)
   \<and> generate thinkModel plainEnv
        [tok quiet ''0123456789abcdef'', tok quiet ''<think>'', tok quiet ''b'',
         tok quiet ''</think>'',
         Yielded (finalOutput ''d'' False ''0123456789abcdef<think>b</think>d'') quiet]
     = ([Stream ''0123456789abcdef'', ReasoningStream ''b'', ReasoningStatus ''Done in 0s.'',
         FinalAnswer ''<think>b</think>d'' True], Returned)"
  by code_simp

text \<open>
  C8, amended. In tokens mode, take a turn that is not aborted and a provider stream of
  plain token outputs (no side channels) of this shape: the begin marker as one token
  (no such token when the begin marker is empty), reasoning tokens, the end marker as one
  token, answer tokens, and a last output that carries the concatenation of all these
  texts and of its own token as \<open>generated_text\<close>; no reasoning or answer token is a
  marker, and the end marker does not occur in the begin marker followed by the reasoning
  tokens (so that it is met first as its own token; in particular the markers differ).
  Then the events are: the Started-reasoning status when the begin marker is empty; the
  reasoning tokens, each as one Reasoning.Stream event (with nothing between them but
  Reasoning.Status events of summaries that arrive); the Done status; the answer tokens,
  each as one Stream event; and one FinalAnswer, whose text is the completed text (right
  trimmed, trailing stop tokens removed) without its leading reasoning section (begin
  marker, reasoning tokens, end marker). With no stop tokens and no trailing white space
  this text is exactly the concatenation of the answer tokens and the last token: the
  reasoning section is not carried into it.
\<close>

theorem tokens_mode_no_duplication:
  assumes cfg: "reasoningCfg m = Some (Tokens b e)"
    and live: "\<forall>ot \<in> set (rs @ as). abortCheck env (fst ot) = Continue"
    and nomark: "\<forall>ot \<in> set (rs @ as). snd ot \<noteq> b \<and> snd ot \<noteq> e"
    and noend: "lastIndexOf (b @ concat (map snd rs)) e = None"
    and g: "g = b @ concat (map snd rs) @ e @ concat (map snd as) @ z"
  shows "(\<exists>R. generate m env
                ((if b = [] then [] else [tok obB b]) @ toks rs @ tok obE e # toks as
                   @ [Yielded (finalOutput z sp g) obZ])
              = ((if b = [] then [ReasoningStatus ''Started reasoning...''] else [])
                   @ R @ doneStatus env obE # map Stream (map snd as)
                   @ [FinalAnswer
                        (drop (length (b @ concat (map snd rs) @ e))
                           (snd (completedText m (finalOutput z sp g) g)))
                        (fst (completedText m (finalOutput z sp g) g))],
                 Returned)
            \<and> filter (\<lambda>x. \<not> isReasoningStatus x) R = map ReasoningStream (map snd rs))
       \<and> (stop m = None \<longrightarrow> trimEnd g = g \<longrightarrow>
            drop (length (b @ concat (map snd rs) @ e))
                 (snd (completedText m (finalOutput z sp g) g))
              = concat (map snd as) @ z)"
proof -
  let ?fin = "Yielded (finalOutput z sp g) obZ"
  let ?fa = "FinalAnswer
               (drop (length (b @ concat (map snd rs) @ e))
                  (snd (completedText m (finalOutput z sp g) g)))
               (fst (completedText m (finalOutput z sp g) g))"
  let ?started = "if b = [] then [ReasoningStatus ''Started reasoning...''] else []"
  have ene: "e \<noteq> []"
    using noend lastIndexOfFrom_empty_pattern[of 0 "b @ concat (map snd rs)"]
    by (auto simp: lastIndexOf_def)
  have neq: "e \<noteq> b" using noend lastIndexOf_own_prefix[of b "concat (map snd rs)"] by auto
  have gne: "g \<noteq> []" using g ene by simp
  have sr: "startsInReasoning m = (b = [])" using cfg by (simp add: startsInReasoning_def)
  have condR: "\<forall>ot \<in> set rs. abortCheck env (fst ot) = Continue \<and> snd ot \<noteq> b \<and> snd ot \<noteq> e"
    using live nomark by simp
  have condA: "\<forall>ot \<in> set as. abortCheck env (fst ot) = Continue \<and> snd ot \<noteq> b \<and> snd ot \<noteq> e"
    using live nomark by simp
  from run_opening[OF cfg, of env obB] obtain st1 where
    r1: "reasoning_on st1" and b1: "reasoningBuffer st1 = b"
    and run1: "\<forall>rest. run m env (initState m env) ((if b = [] then [] else [tok obB b]) @ rest)
                  = run m env st1 rest"
    by blast
  have r4: "lastIndexOf (reasoningBuffer st1 @ concat (map snd rs)) e = None" using noend b1 by simp
  from reasoning_phase[OF cfg r1 condR r4] obtain R st2 where
    b2: "reasoningBuffer st2 = b @ concat (map snd rs)"
    and fR: "filter (\<lambda>x. \<not> isReasoningStatus x) R = map ReasoningStream (map snd rs)"
    and run2: "\<forall>rest. run m env st1 (toks rs @ rest)
                  = (R @ fst (run m env st2 rest), snd (run m env st2 rest))"
    using b1 by auto
  let ?st3 = "(settle obE st2)\<lparr>reasoning_on := False,
                               reasoningBuffer := reasoningBuffer (settle obE st2) @ e\<rparr>"
  have nr3: "\<not> reasoning_on ?st3" by simp
  have b3: "reasoningBuffer ?st3 = b @ concat (map snd rs) @ e" using b2 by (simp add: settle_fields)
  from answer_phase[OF cfg nr3 condA] obtain st4 where
    b4: "reasoningBuffer st4 = b @ concat (map snd rs) @ e"
    and run4: "\<forall>rest. run m env ?st3 (toks as @ rest)
                  = (map Stream (map snd as) @ fst (run m env st4 rest), snd (run m env st4 rest))"
    using b3 by auto
  have fin: "run m env st4 [?fin] = ([?fa], Returned)"
    using step_final_tokens[OF cfg gne, of env st4 z sp obZ]
          removeReasoningSection_leading[OF ene, of b "concat (map snd rs)"] b4
    by simp
  have ans: "run m env ?st3 (toks as @ [?fin]) = (map Stream (map snd as) @ [?fa], Returned)"
    using run4[rule_format, of "[?fin]"] fin by simp
  have endt: "run m env st2 (tok obE e # toks as @ [?fin])
               = (doneStatus env obE # map Stream (map snd as) @ [?fa], Returned)"
    using step_end_token[OF cfg neq, of env st2 obE] ans by (simp add: tok_def)
  have mid: "run m env st1 (toks rs @ tok obE e # toks as @ [?fin])
               = (R @ doneStatus env obE # map Stream (map snd as) @ [?fa], Returned)"
    using run2[rule_format, of "tok obE e # toks as @ [?fin]"] endt by simp
  have all: "run m env (initState m env)
               ((if b = [] then [] else [tok obB b]) @ toks rs @ tok obE e # toks as @ [?fin])
               = (R @ doneStatus env obE # map Stream (map snd as) @ [?fa], Returned)"
    using run1[rule_format, of "toks rs @ tok obE e # toks as @ [?fin]"] mid by simp
  have first: "generate m env
                 ((if b = [] then [] else [tok obB b]) @ toks rs @ tok obE e # toks as @ [?fin])
               = (?started @ R @ doneStatus env obE # map Stream (map snd as) @ [?fa], Returned)"
    using all sr by (simp add: generate_def)
  have second: "stop m = None \<longrightarrow> trimEnd g = g \<longrightarrow>
            drop (length (b @ concat (map snd rs) @ e))
                 (snd (completedText m (finalOutput z sp g) g))
              = concat (map snd as) @ z"
    using g by (simp add: completedText_def stopTokens_def)
  show ?thesis using first fR second by blast
qed

theorem tokens_mode_no_duplication_witness:
  "reasoningCfg thinkModel = Some (Tokens ''<think>'' ''</think>'')
   \<and> abortCheck summaryEnv askObs = Continue \<and> abortCheck summaryEnv summaryObs = Continue
   \<and> abortCheck summaryEnv laterObs = Continue
   \<and> lastIndexOf (''<think>'' @ concat [''b'', ''c'']) ''</think>'' = None
   \<and> stop thinkModel = None
   \<and> trimEnd ''<think>bc</think>de'' = ''<think>bc</think>de''
   \<and> (\<exists>R. generate thinkModel summaryEnv
              [tok quiet ''<think>'', tok askObs ''b'', tok summaryObs ''c'',
               tok laterObs ''</think>'', tok laterObs ''d'',
               Yielded (finalOutput ''e'' False ''<think>bc</think>de'') laterObs]
            = (R @ [ReasoningStatus ''Done in 6s.'', Stream ''d'', FinalAnswer ''de'' True],
               Returned)
          \<and> filter (\<lambda>x. \<not> isReasoningStatus x) R = [ReasoningStream ''b'', ReasoningStream ''c''])
   \<and> generate thinkModel summaryEnv
              [tok quiet ''<think>'', tok askObs ''b'', tok summaryObs ''c'',
               tok laterObs ''</think>'', tok laterObs ''d'',
               Yielded (finalOutput ''e'' False ''<think>bc</think>de'') laterObs]
       = ([ReasoningStream ''b'', ReasoningStatus ''Thinking about b'', ReasoningStream ''c'',
           ReasoningStatus ''Done in 6s.'', Stream ''d'', FinalAnswer ''de'' True], Returned)
   \<and> reasoningCfg endOnlyModel = Some (Tokens [] ''</think>'')
   \<and> lastIndexOf ([] @ concat [''b'', ''c'']) ''</think>'' = None
   \<and> (\<exists>R. generate endOnlyModel plainEnv
              [tok quiet ''b'', tok quiet ''c'', tok quiet ''</think>'', tok quiet ''d'',
               Yielded (finalOutput ''e'' False ''bc</think>de'') quiet]
            = (ReasoningStatus ''Started reasoning...'' # R
                 @ [ReasoningStatus ''Done in 0s.'', Stream ''d'', FinalAnswer ''de'' True],
               Returned)
          \<and> filter (\<lambda>x. \<not> isReasoningStatus x) R = [ReasoningStream ''b'', ReasoningStream ''c''])"
proof -
  let ?g = "''<think>bc</think>de''"
  have h1: "reasoningCfg thinkModel = Some (Tokens ''<think>'' ''</think>'')"
    by (simp add: thinkModel_def)
  have l0: "abortCheck summaryEnv askObs = Continue" by (simp add: abortCheck_def askObs_def)
  have l1: "abortCheck summaryEnv summaryObs = Continue"
    by (simp add: abortCheck_def summaryObs_def)
  have l2: "abortCheck summaryEnv laterObs = Continue" by (simp add: abortCheck_def laterObs_def)
  have live: "\<forall>ot \<in> set ([(askObs, ''b''), (summaryObs, ''c'')] @ [(laterObs, ''d'')]).
                abortCheck summaryEnv (fst ot) = Continue"
    using l0 l1 l2 by simp
  have nomark: "\<forall>ot \<in> set ([(askObs, ''b''), (summaryObs, ''c'')] @ [(laterObs, ''d'')]).
                  snd ot \<noteq> ''<think>'' \<and> snd ot \<noteq> ''</think>''"
    by simp
  have h5: "lastIndexOf (''<think>'' @ concat [''b'', ''c'']) ''</think>'' = None" by code_simp
  then have noend: "lastIndexOf (''<think>''
                      @ concat (map snd [(askObs, ''b''), (summaryObs, ''c'')])) ''</think>'' = None"
    by simp
  have g: "?g = ''<think>'' @ concat (map snd [(askObs, ''b''), (summaryObs, ''c'')])
                  @ ''</think>'' @ concat (map snd [(laterObs, ''d'')]) @ ''e''"
    by simp
  have h8: "stop thinkModel = None" by (simp add: thinkModel_def)
  have h9: "trimEnd ?g = ?g" by code_simp
  have d: "doneStatus summaryEnv laterObs = ReasoningStatus ''Done in 6s.''" by code_simp
  have ct: "completedText thinkModel (finalOutput ''e'' False ?g) ?g = (True, ?g)" by code_simp
  note inst = tokens_mode_no_duplication[where env = summaryEnv and obB = quiet
      and obE = laterObs and obZ = laterObs and sp = False, OF h1 live nomark noend g]
  from inst[THEN conjunct1] obtain R where
    a: "generate thinkModel summaryEnv
              [tok quiet ''<think>'', tok askObs ''b'', tok summaryObs ''c'',
               tok laterObs ''</think>'', tok laterObs ''d'',
               Yielded (finalOutput ''e'' False ?g) laterObs]
            = (R @ [ReasoningStatus ''Done in 6s.'', Stream ''d'', FinalAnswer ''de'' True],
               Returned)"
    and f: "filter (\<lambda>x. \<not> isReasoningStatus x) R = [ReasoningStream ''b'', ReasoningStream ''c'']"
    by (auto simp: toks_def d ct)
  have v: "generate thinkModel summaryEnv
              [tok quiet ''<think>'', tok askObs ''b'', tok summaryObs ''c'',
               tok laterObs ''</think>'', tok laterObs ''d'',
               Yielded (finalOutput ''e'' False ?g) laterObs]
       = ([ReasoningStream ''b'', ReasoningStatus ''Thinking about b'', ReasoningStream ''c'',
           ReasoningStatus ''Done in 6s.'', Stream ''d'', FinalAnswer ''de'' True], Returned)"
    by code_simp
  have ex: "\<exists>R. generate thinkModel summaryEnv
              [tok quiet ''<think>'', tok askObs ''b'', tok summaryObs ''c'',
               tok laterObs ''</think>'', tok laterObs ''d'',
               Yielded (finalOutput ''e'' False ?g) laterObs]
            = (R @ [ReasoningStatus ''Done in 6s.'', Stream ''d'', FinalAnswer ''de'' True],
               Returned)
          \<and> filter (\<lambda>x. \<not> isReasoningStatus x) R = [ReasoningStream ''b'', ReasoningStream ''c'']"
    using a f by blast
  let ?g2 = "''bc</think>de''"
  have k1: "reasoningCfg endOnlyModel = Some (Tokens [] ''</think>'')"
    by (simp add: endOnlyModel_def)
  have l3: "abortCheck plainEnv quiet = Continue" by (simp add: abortCheck_def quiet_def)
  have live2: "\<forall>ot \<in> set ([(quiet, ''b''), (quiet, ''c'')] @ [(quiet, ''d'')]).
                abortCheck plainEnv (fst ot) = Continue"
    using l3 by simp
  have nomark2: "\<forall>ot \<in> set ([(quiet, ''b''), (quiet, ''c'')] @ [(quiet, ''d'')]).
                  snd ot \<noteq> [] \<and> snd ot \<noteq> ''</think>''"
    by simp
  have k5: "lastIndexOf ([] @ concat [''b'', ''c'']) ''</think>'' = None" by code_simp
  then have noend2: "lastIndexOf ([] @ concat (map snd [(quiet, ''b''), (quiet, ''c'')])) ''</think>'' = None"
    by simp
  have g2: "?g2 = [] @ concat (map snd [(quiet, ''b''), (quiet, ''c'')])
                  @ ''</think>'' @ concat (map snd [(quiet, ''d'')]) @ ''e''"
    by simp
  have d2: "doneStatus plainEnv quiet = ReasoningStatus ''Done in 0s.''" by code_simp
  have ct2: "completedText endOnlyModel (finalOutput ''e'' False ?g2) ?g2 = (True, ?g2)" by code_simp
  note inst2 = tokens_mode_no_duplication[where env = plainEnv and obB = quiet and obE = quiet
      and obZ = quiet and sp = False, OF k1 live2 nomark2 noend2 g2]
  from inst2[THEN conjunct1] obtain R2 where
    a2: "generate endOnlyModel plainEnv
              [tok quiet ''b'', tok quiet ''c'', tok quiet ''</think>'', tok quiet ''d'',
               Yielded (finalOutput ''e'' False ?g2) quiet]
            = (ReasoningStatus ''Started reasoning...'' # R2
                 @ [ReasoningStatus ''Done in 0s.'', Stream ''d'', FinalAnswer ''de'' True],
               Returned)"
    and f2: "filter (\<lambda>x. \<not> isReasoningStatus x) R2 = [ReasoningStream ''b'', ReasoningStream ''c'']"
    by (auto simp: toks_def d2 ct2)
  have ex2: "\<exists>R. generate endOnlyModel plainEnv
              [tok quiet ''b'', tok quiet ''c'', tok quiet ''</think>'', tok quiet ''d'',
               Yielded (finalOutput ''e'' False ?g2) quiet]
            = (ReasoningStatus ''Started reasoning...'' # R
                 @ [ReasoningStatus ''Done in 0s.'', Stream ''d'', FinalAnswer ''de'' True],
               Returned)
          \<and> filter (\<lambda>x. \<not> isReasoningStatus x) R = [ReasoningStream ''b'', ReasoningStream ''c'']"
    using a2 f2 by blast
  show ?thesis using h1 l0 l1 l2 h5 h8 h9 ex v k1 k5 ex2 by (intro conjI)
qed


section \<open>Properties of the merged stream\<close>

lemma isSide_not_status: "list_all isSide xs \<Longrightarrow> \<not> list_ex isStatus xs"
  by (induction xs) (auto simp: isSide_def isStatus_def split: MessageUpdate.splits)

lemma doneStatus_not_status [simp]: "\<not> isStatus (doneStatus env ob)"
  by (simp add: doneStatus_def isStatus_def)

lemma isStatus_simps [simp]:
  "\<not> isStatus (Stream t)" "\<not> isStatus (ReasoningStream t)" "\<not> isStatus (ReasoningStatus t)"
  "\<not> isStatus (FinalAnswer t i)" "\<not> isStatus (Title t)" "isStatus (Status k msg)"
  by (simp_all add: isStatus_def)

lemma complete_no_status:
  assumes "\<forall>p. \<not> list_ex isStatus (fst (generateFromDefaultEndpoint env p))"
  shows "\<not> list_ex isStatus (fst (complete m env ob st out g))"
proof -
  obtain intr tx where cp: "completedText m out g = (intr, tx)" by force
  show ?thesis
  proof (cases "reasoningCfg m")
    case None
    with cp show ?thesis by (simp add: complete_def)
  next
    case (Some cfg)
    show ?thesis
    proof (cases cfg)
      case (Regex r)
      show ?thesis
      proof (cases "regexExec1 env r (reasoningBuffer st)")
        case (Inl err)
        with Some Regex cp show ?thesis by (simp add: complete_def)
      next
        case (Inr res)
        with Some Regex cp show ?thesis by (cases res) (simp_all add: complete_def)
      qed
    next
      case Summarize
      show ?thesis
      proof (cases "question env")
        case None
        with Some Summarize cp show ?thesis by (simp add: complete_def)
      next
        case (Some q)
        obtain evs res where ax: "generateFromDefaultEndpoint env (summarizePrompt q (reasoningBuffer st)) = (evs, res)"
          by force
        have "\<not> list_ex isStatus evs" using assms ax by (metis fst_conv)
        with \<open>reasoningCfg m = Some cfg\<close> Summarize Some cp ax show ?thesis
          by (cases res) (simp_all add: complete_def)
      qed
    next
      case (Tokens b e)
      with Some cp show ?thesis by (simp add: complete_def)
    qed
  qed
qed

lemma passReasoning_no_status: "\<not> list_ex isStatus (fst (passReasoning m env ob st t))"
proof (cases "markers m")
  case None
  then show ?thesis by (simp add: passReasoning_def)
next
  case (Some be)
  obtain b e where be: "be = (b, e)" by (cases be)
  show ?thesis
    using Some be by (cases "lastIndexOf (reasoningBuffer st @ t) e") (simp_all add: passReasoning_def)
qed

lemma passToken_no_status: "\<not> list_ex isStatus (fst (passToken m env ob st out))"
proof (cases "markers m")
  case None
  then show ?thesis using passReasoning_no_status[of m env ob st "tok_text (token out)"]
    by (simp add: passToken_def Let_def)
next
  case (Some be)
  obtain b e where be: "be = (b, e)" by (cases be)
  show ?thesis
    using Some be passReasoning_no_status[of m env ob st "tok_text (token out)"]
    by (simp add: passToken_def Let_def)
qed

lemma step_no_status:
  assumes "\<forall>p. \<not> list_ex isStatus (fst (generateFromDefaultEndpoint env p))"
  shows "\<not> list_ex isStatus (fst (step m env st out ob))"
proof -
  obtain ev1 st1 where r1: "handleReasoningDelta out (settle ob st) = (ev1, st1)" by force
  obtain ev2 st2 where r2: "handleToolCallDeltas env out st1 = (ev2, st2)" by force
  have s1: "\<not> list_ex isStatus ev1"
    using handleReasoningDelta_events[of out "settle ob st"] r1 isSide_not_status by simp
  have s2: "\<not> list_ex isStatus ev2"
    using handleToolCallDeltas_events[of env out st1] r2 isToolCall_isSide isSide_not_status
    by fastforce
  have s3: "\<not> list_ex isStatus (handleToolResultDelta out)"
    using handleToolResultDelta_events isSide_not_status by blast
  show ?thesis
  proof (cases "completionText out")
    case None
    obtain ev4 st' c where pt: "passToken m env ob st2 out = (ev4, st', c)" using prod_cases3 by blast
    have "\<not> list_ex isStatus ev4" using passToken_no_status[of m env ob st2 out] pt by simp
    with s1 s2 s3 r1 r2 None pt show ?thesis by (simp add: step_def)
  next
    case (Some g)
    obtain ev4 c where cp: "complete m env ob st2 out g = (ev4, c)" by force
    have "\<not> list_ex isStatus ev4" using complete_no_status[OF assms, of m ob st2 out g] cp by simp
    with s1 s2 s3 r1 r2 Some cp show ?thesis by (simp add: step_def)
  qed
qed

lemma run_no_status:
  assumes "\<forall>p. \<not> list_ex isStatus (fst (generateFromDefaultEndpoint env p))"
  shows "\<not> list_ex isStatus (fst (run m env st steps))"
proof (induction steps arbitrary: st)
  case Nil
  then show ?case by simp
next
  case (Cons s steps)
  show ?case
  proof (cases s)
    case (ProviderError msg)
    then show ?thesis by simp
  next
    case (Yielded out ob)
    obtain evs st' c where stp: "step m env st out ob = (evs, st', c)" using prod_cases3 by blast
    have e: "\<not> list_ex isStatus evs" using step_no_status[OF assms, of m st out ob] stp by simp
    show ?thesis
    proof (cases c)
      case Continue
      obtain evs' oc where rr: "run m env st' steps = (evs', oc)" by force
      have "\<not> list_ex isStatus evs'" using Cons.IH[of st'] rr by simp
      with e Yielded stp Continue rr show ?thesis by simp
    next
      case Break
      with e Yielded stp show ?thesis by simp
    next
      case (Throw msg)
      with e Yielded stp show ?thesis by simp
    qed
  qed
qed

lemma generate_no_status:
  assumes "\<forall>p. \<not> list_ex isStatus (fst (generateFromDefaultEndpoint env p))"
  shows "\<not> list_ex isStatus (fst (generate m env steps))"
proof -
  obtain evs oc where rr: "run m env (initState m env) steps = (evs, oc)" by force
  have "\<not> list_ex isStatus evs" using run_no_status[OF assms, of m "initState m env" steps] rr by simp
  with rr show ?thesis by (simp add: generate_def)
qed

lemma isStarted_isStatus: "isStarted e \<Longrightarrow> isStatus e"
  by (cases e) (simp_all add: isStarted_def isStatus_def)

lemma drain_no_P:
  "\<not> list_ex P ts \<Longrightarrow> \<not> list_ex P xs \<Longrightarrow> \<not> list_ex P ks \<Longrightarrow> \<not> list_ex P (drain sch ts xs ks)"
  by (induction sch ts xs ks rule: drain.induct) simp_all

text \<open>
  C4. Whatever the schedule of the merge, the titles, the number of heartbeats, the model
  and the provider stream (the auxiliary completion yielding no Status events of its own),
  the merged stream of a turn starts with the Started status and no later event of it is a
  Started status: there is exactly one, and it precedes every other event, heartbeats and
  titles included.
\<close>

theorem started_first_exactly_once:
  assumes "\<forall>p. \<not> list_ex isStatus (fst (generateFromDefaultEndpoint env p))"
  shows "\<exists>rest. textGeneration sch titles n m env steps = Status Started None # rest
           \<and> \<not> list_ex isStarted rest"
proof -
  obtain evs oc where g: "generate m env steps = (evs, oc)" by force
  have ne: "\<not> list_ex isStatus evs" using generate_no_status[OF assms, of m steps] g by simp
  then have a: "\<not> list_ex isStarted evs" using isStarted_isStatus by (auto simp: list_ex_iff)
  have b: "\<not> list_ex isStarted (generateTitleForConversation titles)"
    by (simp add: generateTitleForConversation_def list_ex_iff isStarted_def image_iff)
  have c: "\<not> list_ex isStarted (keepAlive n)"
    by (simp add: keepAlive_def list_ex_iff isStarted_def)
  have "textGeneration sch titles n m env steps
          = Status Started None # drain sch (generateTitleForConversation titles) evs (keepAlive n)"
    using g by (simp add: textGeneration_def textGenerationWithoutTitle_def mergeAsyncGenerators_def)
  moreover have "\<not> list_ex isStarted (drain sch (generateTitleForConversation titles) evs (keepAlive n))"
    using drain_no_P[OF b a c] .
  ultimately show ?thesis by blast
qed

theorem started_first_exactly_once_witness:
  "\<not> list_ex isStatus (fst (generateFromDefaultEndpoint plainEnv ''any''))
   \<and> textGeneration [KeepAliveGen, TitleGen, TextGen, KeepAliveGen] [''Hello''] 2 plainModel plainEnv
        [tok quiet ''a'']
      = [Status Started None, Status KeepAlive None, Title ''Hello'', Stream ''a'', Status KeepAlive None]"
proof -
  have h: "\<forall>p. \<not> list_ex isStatus (fst (generateFromDefaultEndpoint plainEnv p))"
    by (simp add: plainEnv_def)
  have v: "textGeneration [KeepAliveGen, TitleGen, TextGen, KeepAliveGen] [''Hello''] 2 plainModel plainEnv
        [tok quiet ''a'']
      = [Status Started None, Status KeepAlive None, Title ''Hello'', Stream ''a'', Status KeepAlive None]"
    by code_simp
  from started_first_exactly_once[OF h, of "[KeepAliveGen, TitleGen, TextGen, KeepAliveGen]"
         "[''Hello'']" 2 plainModel "[tok quiet ''a'']"]
  show ?thesis using h v by simp
qed

end
